theory Spec2Isabelle
  imports Main
begin

section \<open>Data model\<close>

text \<open>
  The development embeds \<^verbatim>\<open>src/polyfills/validityState.js\<close> of hyperform: the ten
  facet checkers of \<^verbatim>\<open>validity_state_checkers\<close>, the facet getters installed on the
  prototype, the aggregate \<^verbatim>\<open>valid\<close> getter and the \<^verbatim>\<open>ValidityState\<close> constructor with
  its cache.

  JavaScript values that the engine only passes on to \<^verbatim>\<open>sprintf\<close>: \<^verbatim>\<open>null\<close>, strings,
  numbers and dates. The engine never computes with them; it only tests a value against
  \<^verbatim>\<open>null\<close>.
\<close>

datatype jsval = JSNull | JSString string | JSNumber int | JSNaN | JSDate int

text \<open>
  A control (a DOM element), reduced to what the file reads and writes:
  its identity (the key of the message store and of the \<^verbatim>\<open>WeakMap\<close>),
  \<^verbatim>\<open>element instanceof window.HTMLSelectElement\<close>, \<^verbatim>\<open>element.value\<close>,
  \<^verbatim>\<open>element.title\<close>, the attributes behind \<^verbatim>\<open>getAttribute\<close>, \<^verbatim>\<open>hasAttribute\<close> and
  \<^verbatim>\<open>setAttribute\<close>, and \<^verbatim>\<open>element.classList\<close>.
\<close>

record element =
  ident :: nat
  is_select :: bool
  elem_value :: string
  title :: string
  attrs :: "string \<rightharpoonup> string"
  classList :: "string list"

text \<open>
  A message of the store: a \<^verbatim>\<open>String\<close> object, which may carry the property
  \<^verbatim>\<open>is_custom\<close>.
\<close>

record message =
  msg_text :: string
  is_custom :: bool

text \<open>
  The state a facet read works on: the control, and the message store
  (one slot per control identity).
\<close>

record state =
  elem :: element
  messages :: "nat \<rightharpoonup> message"

text \<open>
  A custom validator is a predicate \<^verbatim>\<open>control -> bool | undefined\<close>; \<open>None\<close> is
  \<^verbatim>\<open>undefined\<close>.
\<close>

type_synonym validator = "element \<Rightarrow> bool option"

text \<open>
  The settings of a form wrapper, as far as the \<^verbatim>\<open>valid\<close> getter reads them:
  \<^verbatim>\<open>wrapper.settings.classes.valid\<close>, \<^verbatim>\<open>.invalid\<close> and \<^verbatim>\<open>.validated\<close>.
  \<open>None\<close> is \<^verbatim>\<open>undefined\<close>.
\<close>

record wrapper =
  classes_valid :: "string option"
  classes_invalid :: "string option"
  classes_validated :: "string option"

text \<open>
  The modules the file imports are not part of the sources; they are parameters of the
  embedding. Each field is the imported function of the same name
  (\<open>translate\<close> is the import \<^verbatim>\<open>_\<close>, \<open>Registry_get\<close> is \<^verbatim>\<open>Registry.get\<close>).
  The validators \<^verbatim>\<open>test_*\<close> return true when the constraint is satisfied.
  \<^verbatim>\<open>get_next_valid\<close> returns the pair \<^verbatim>\<open>[min, max]\<close>.
\<close>

record env =
  test_bad_input :: "element \<Rightarrow> bool"
  test_pattern :: "element \<Rightarrow> bool"
  test_max :: "element \<Rightarrow> bool"
  test_min :: "element \<Rightarrow> bool"
  test_step :: "element \<Rightarrow> bool"
  test_maxlength :: "element \<Rightarrow> bool"
  test_minlength :: "element \<Rightarrow> bool"
  test_type :: "element \<Rightarrow> bool"
  test_required :: "element \<Rightarrow> bool"
  get_type :: "element \<Rightarrow> string"
  is_validation_candidate :: "element \<Rightarrow> bool"
  get_next_valid :: "element \<Rightarrow> jsval \<times> jsval"
  string_to_date :: "jsval \<Rightarrow> string \<Rightarrow> jsval"
  string_to_number :: "jsval \<Rightarrow> string \<Rightarrow> jsval"
  unicode_string_length :: "string \<Rightarrow> nat"
  translate :: "string \<Rightarrow> string"
  sprintf :: "string \<Rightarrow> jsval list \<Rightarrow> string"
  Registry_get :: "element \<Rightarrow> validator list"
  get_wrapper :: "element \<Rightarrow> wrapper option"

section \<open>DOM operations on the control\<close>

text \<open>\<^verbatim>\<open>element.getAttribute(name)\<close>: the attribute's value, or \<^verbatim>\<open>null\<close>.\<close>

definition getAttribute :: "element \<Rightarrow> string \<Rightarrow> jsval" where
  "getAttribute element name =
     (case attrs element name of None \<Rightarrow> JSNull | Some v \<Rightarrow> JSString v)"

definition hasAttribute :: "element \<Rightarrow> string \<Rightarrow> bool" where
  "hasAttribute element name = (attrs element name \<noteq> None)"

definition setAttribute :: "string \<Rightarrow> string \<Rightarrow> state \<Rightarrow> state" where
  "setAttribute name v s = s\<lparr>elem := (elem s)\<lparr>attrs := (attrs (elem s))(name \<mapsto> v)\<rparr>\<rparr>"

text \<open>
  \<^verbatim>\<open>classList.add\<close> and \<^verbatim>\<open>classList.remove\<close> on the ordered token set. The class
  names are the fixed defaults or come from the wrapper's settings; they are taken to be
  valid tokens, for which the DOM does not throw.
\<close>

definition classList_add :: "string \<Rightarrow> state \<Rightarrow> state" where
  "classList_add c s =
     (if c \<in> set (classList (elem s)) then s
      else s\<lparr>elem := (elem s)\<lparr>classList := classList (elem s) @ [c]\<rparr>\<rparr>)"

definition classList_remove :: "string \<Rightarrow> state \<Rightarrow> state" where
  "classList_remove c s =
     s\<lparr>elem := (elem s)\<lparr>classList := filter (\<lambda>x. x \<noteq> c) (classList (elem s))\<rparr>\<rparr>"

section \<open>The message store\<close>

text \<open>
  Modelled from the spec: the module \<^verbatim>\<open>components/message_store\<close> is not part of the
  sources. The spec describes it as a per-control slot holding the current validation
  message (a string, or empty), which may carry a marker that flags it as a custom
  message. \<^verbatim>\<open>set(element, msg)\<close> with two arguments stores a message without the
  marker; \<^verbatim>\<open>get\<close> of a control without an entry is the empty message;
  \<^verbatim>\<open>delete\<close> clears the slot.
\<close>

definition message_store_set :: "element \<Rightarrow> string \<Rightarrow> state \<Rightarrow> state" where
  "message_store_set element msg s =
     s\<lparr>messages := (messages s)(ident element \<mapsto> \<lparr>msg_text = msg, is_custom = False\<rparr>)\<rparr>"

definition message_store_get :: "element \<Rightarrow> state \<Rightarrow> message" where
  "message_store_get element s =
     (case messages s (ident element) of
        None \<Rightarrow> \<lparr>msg_text = [], is_custom = False\<rparr>
      | Some m \<Rightarrow> m)"

definition message_store_delete :: "element \<Rightarrow> state \<Rightarrow> state" where
  "message_store_delete element s = s\<lparr>messages := (messages s)(ident element := None)\<rparr>"

section \<open>The facet checkers\<close>

text \<open>
  Each checker of \<^verbatim>\<open>validity_state_checkers\<close> takes the control (here: the state that
  holds it) and returns true if the test fails, together with the state it leaves.
\<close>

type_synonym checker = "env \<Rightarrow> state \<Rightarrow> bool \<times> state"

definition badInput :: checker where
  "badInput env s =
     (let element = elem s;
          invalid = (\<not> test_bad_input env element)
      in if invalid
         then (invalid, message_store_set element
                          (translate env ''Please match the requested type.'') s)
         else (invalid, s))"

text \<open>
  The loop of \<^verbatim>\<open>customError\<close> over the registered validators: \<^verbatim>\<open>valid\<close> becomes false
  at the first result that is neither \<^verbatim>\<open>undefined\<close> nor truthy, and the loop breaks
  there. The second component counts the validators that were called.
\<close>

fun call_validators :: "validator list \<Rightarrow> element \<Rightarrow> bool \<times> nat" where
  "call_validators [] element = (True, 0)"
| "call_validators (validator # rest) element =
     (let result = validator element
      in if result \<noteq> None \<and> \<not> the result
         then (False, 1)
         else (case call_validators rest element of (valid, n) \<Rightarrow> (valid, Suc n)))"

definition customError :: checker where
  "customError env s =
     (let element = elem s;
          custom_validators = Registry_get env element;
          valid = (if length custom_validators \<noteq> 0
                   then fst (call_validators custom_validators element)
                   else True);
          valid = (if valid
                   then (let msg = message_store_get element s
                         in \<not> (msg_text msg \<noteq> [] \<and> is_custom msg))
                   else valid)
      in (\<not> valid, s))"

definition patternMismatch :: checker where
  "patternMismatch env s =
     (let element = elem s;
          invalid = (\<not> test_pattern env element)
      in if invalid
         then (invalid, message_store_set element
                 (if title element \<noteq> []
                  then sprintf env (translate env ''PatternMismatchWithTitle'')
                         [JSString (title element)]
                  else translate env ''PatternMismatch'') s)
         else (invalid, s))"

definition rangeOverflow :: checker where
  "rangeOverflow env s =
     (let element = elem s;
          invalid = (\<not> test_max env element);
          type = get_type env element
      in if invalid
         then (let msg =
                 (if type = ''date'' \<or> type = ''datetime'' \<or> type = ''datetime-local''
                  then sprintf env (translate env ''DateRangeOverflow'')
                         [string_to_date env (getAttribute element ''max'') type]
                  else if type = ''time''
                  then sprintf env (translate env ''TimeRangeOverflow'')
                         [string_to_date env (getAttribute element ''max'') type]
                  else sprintf env (translate env ''NumberRangeOverflow'')
                         [string_to_number env (getAttribute element ''max'') type])
               in (invalid, message_store_set element msg s))
         else (invalid, s))"

definition rangeUnderflow :: checker where
  "rangeUnderflow env s =
     (let element = elem s;
          invalid = (\<not> test_min env element);
          type = get_type env element
      in if invalid
         then (let msg =
                 (if type = ''date'' \<or> type = ''datetime'' \<or> type = ''datetime-local''
                  then sprintf env (translate env ''DateRangeUnderflow'')
                         [string_to_date env (getAttribute element ''max'') type]
                  else if type = ''time''
                  then sprintf env (translate env ''TimeRangeUnderflow'')
                         [string_to_date env (getAttribute element ''max'') type]
                  else sprintf env (translate env ''NumberRangeUnderflow'')
                         [string_to_number env (getAttribute element ''max'') type])
               in (invalid, message_store_set element msg s))
         else (invalid, s))"

text \<open>
  In \<^verbatim>\<open>stepMismatch\<close> the variable \<^verbatim>\<open>sole\<close> starts as \<^verbatim>\<open>false\<close> (\<open>None\<close> here) and
  becomes the other bound when one bound is \<^verbatim>\<open>null\<close>.
\<close>

definition stepMismatch :: checker where
  "stepMismatch env s =
     (let element = elem s;
          invalid = (\<not> test_step env element)
      in if invalid
         then (case get_next_valid env element of
                 (min', max') \<Rightarrow>
                   (let sole = (if min' = JSNull then Some max'
                                else if max' = JSNull then Some min'
                                else None)
                    in case sole of
                         Some v \<Rightarrow>
                           (invalid, message_store_set element
                              (sprintf env (translate env ''StepMismatchOneValue'') [v]) s)
                       | None \<Rightarrow>
                           (invalid, message_store_set element
                              (sprintf env (translate env ''StepMismatch'') [min', max']) s)))
         else (invalid, s))"

definition tooLong :: checker where
  "tooLong env s =
     (let element = elem s;
          invalid = (\<not> test_maxlength env element)
      in if invalid
         then (invalid, message_store_set element
                 (sprintf env (translate env ''TextTooLong'')
                    [getAttribute element ''maxlength'',
                     JSNumber (int (unicode_string_length env (elem_value element)))]) s)
         else (invalid, s))"

definition tooShort :: checker where
  "tooShort env s =
     (let element = elem s;
          invalid = (\<not> test_minlength env element)
      in if invalid
         then (invalid, message_store_set element
                 (sprintf env
                    (translate env
                       ''Please lengthen this text to %l characters or more (you are currently using %l characters).'')
                    [getAttribute element ''maxlength'',
                     JSNumber (int (unicode_string_length env (elem_value element)))]) s)
         else (invalid, s))"

definition typeMismatch :: checker where
  "typeMismatch env s =
     (let element = elem s;
          invalid = (\<not> test_type env element)
      in if invalid
         then (let type = get_type env element;
                   msg =
                     (if type = ''email''
                      then (if hasAttribute element ''multiple''
                            then translate env
                                   ''Please enter a comma separated list of email addresses.''
                            else translate env ''InvalidEmail'')
                      else if type = ''url'' then translate env ''InvalidURL''
                      else if type = ''file''
                      then translate env ''Please select a file of the correct type.''
                      else translate env ''Please use the appropriate format.'')
               in (invalid, message_store_set element msg s))
         else (invalid, s))"

definition valueMissing :: checker where
  "valueMissing env s =
     (let element = elem s;
          invalid = (\<not> test_required env element)
      in if invalid
         then (let type = get_type env element;
                   msg =
                     (if type = ''checkbox'' then translate env ''CheckboxMissing''
                      else if type = ''radio'' then translate env ''RadioMissing''
                      else if type = ''file''
                      then (if hasAttribute element ''multiple''
                            then translate env ''Please select one or more files.''
                            else translate env ''FileMissing'')
                      else if is_select element then translate env ''SelectMissing''
                      else translate env ''ValueMissing'')
               in (invalid, message_store_set element msg s))
         else (invalid, s))"

text \<open>
  The object \<^verbatim>\<open>validity_state_checkers\<close>: its properties in the order the literal
  lists them, which is the order \<^verbatim>\<open>for ... in\<close> enumerates them.
\<close>

definition validity_state_checkers :: "(string \<times> checker) list" where
  "validity_state_checkers =
     [(''badInput'', badInput),
      (''customError'', customError),
      (''patternMismatch'', patternMismatch),
      (''rangeOverflow'', rangeOverflow),
      (''rangeUnderflow'', rangeUnderflow),
      (''stepMismatch'', stepMismatch),
      (''tooLong'', tooLong),
      (''tooShort'', tooShort),
      (''typeMismatch'', typeMismatch),
      (''valueMissing'', valueMissing)]"

section \<open>The Validity State\<close>

text \<open>
  The getter that the loop over \<^verbatim>\<open>validity_state_checkers\<close> installs on the prototype
  for each property: it calls the checker on \<^verbatim>\<open>this.element\<close>. A name that is not a
  property of the object has no getter.
\<close>

definition facet_getter :: "string \<Rightarrow> env \<Rightarrow> state \<Rightarrow> (bool \<times> state) option" where
  "facet_getter prop env s =
     (case map_of validity_state_checkers prop of
        None \<Rightarrow> None
      | Some func \<Rightarrow> Some (func env s))"

text \<open>
  The loop of the \<^verbatim>\<open>valid\<close> getter over the checkers: the result is true as soon as a
  checker returns true (the getter then returns false), and false when the loop runs
  to its end.
\<close>

fun first_invalid :: "env \<Rightarrow> (string \<times> checker) list \<Rightarrow> state \<Rightarrow> bool \<times> state" where
  "first_invalid env [] s = (False, s)"
| "first_invalid env ((prop, func) # rest) s =
     (case func env s of
        (True, s') \<Rightarrow> (True, s')
      | (False, s') \<Rightarrow> first_invalid env rest s')"

text \<open>\<^verbatim>\<open>wrapper && wrapper.settings.classes.X || fallback\<close>.\<close>

definition class_or :: "wrapper option \<Rightarrow> (wrapper \<Rightarrow> string option) \<Rightarrow> string \<Rightarrow> string" where
  "class_or w sel fallback =
     (case w of
        None \<Rightarrow> fallback
      | Some wr \<Rightarrow>
          (case sel wr of
             None \<Rightarrow> fallback
           | Some c \<Rightarrow> if c = [] then fallback else c))"

definition valid :: "env \<Rightarrow> state \<Rightarrow> bool \<times> state" where
  "valid env s =
     (let wrapper = get_wrapper env (elem s);
          validClass = class_or wrapper classes_valid ''hf-valid'';
          invalidClass = class_or wrapper classes_invalid ''hf-invalid'';
          validatedClass = class_or wrapper classes_validated ''hf-validated'';
          s1 = classList_add validatedClass s;
          (failed, s2) =
            (if is_validation_candidate env (elem s1)
             then first_invalid env validity_state_checkers s1
             else (False, s1))
      in if failed
         then (False,
               setAttribute ''aria-invalid'' ''true''
                 (classList_remove validClass (classList_add invalidClass s2)))
         else (True,
               setAttribute ''aria-invalid'' ''false''
                 (classList_add validClass
                    (classList_remove invalidClass
                       (message_store_delete (elem s2) s2)))))"

section \<open>The constructor and its cache\<close>

text \<open>
  \<^verbatim>\<open>ValidityState.cache\<close> is a \<^verbatim>\<open>WeakMap\<close> from controls to instances: a map from
  the control's identity to the address of the instance. The heap also records the
  allocated instances with their property \<^verbatim>\<open>element\<close> (\<open>None\<close> while it is unset) and
  the next free address.
\<close>

record heap =
  cache :: "nat \<rightharpoonup> nat"
  instances :: "nat \<rightharpoonup> nat option"
  next_instance :: nat

datatype error = Error string

text \<open>
  The argument of the constructor: an \<^verbatim>\<open>HTMLElement\<close>, or any other JavaScript value.
\<close>

datatype argument = HTMLElement element | NonElement jsval

text \<open>
  \<^verbatim>\<open>this\<close> in the constructor: \<^verbatim>\<open>undefined\<close> for a plain call (the file is in strict
  mode), or the fresh instance that \<^verbatim>\<open>new\<close> allocated.
\<close>

datatype this_binding = Undefined | Instance nat

text \<open>\<^verbatim>\<open>new\<close> allocates the instance that the constructor then runs on.\<close>

definition allocate :: "heap \<Rightarrow> nat \<times> heap" where
  "allocate h =
     (next_instance h,
      h\<lparr>instances := (instances h)(next_instance h \<mapsto> None),
        next_instance := Suc (next_instance h)\<rparr>)"

text \<open>
  The function \<^verbatim>\<open>ValidityState\<close>. The result is the instance the expression evaluates
  to (the cached one, or \<^verbatim>\<open>this\<close>) and the heap, or the error thrown.
\<close>

function ValidityState :: "this_binding \<Rightarrow> argument \<Rightarrow> heap \<Rightarrow> error + nat \<times> heap" where
  "ValidityState this arg h =
     (case arg of
        NonElement v \<Rightarrow> Inl (Error ''cannot create a ValidityState for a non-element'')
      | HTMLElement element \<Rightarrow>
          (case cache h (ident element) of
             Some cached \<Rightarrow> Inr (cached, h)
           | None \<Rightarrow>
               (case this of
                  Undefined \<Rightarrow>
                    (case allocate h of
                       (obj, h') \<Rightarrow> ValidityState (Instance obj) arg h')
                | Instance obj \<Rightarrow>
                    Inr (obj,
                         h\<lparr>instances := (instances h)(obj \<mapsto> Some (ident element)),
                           cache := (cache h)(ident element \<mapsto> obj)\<rparr>))))"
  by pat_completeness auto
termination
  by (relation "measure (\<lambda>(this, arg, h). case this of Undefined \<Rightarrow> 1 | Instance obj \<Rightarrow> 0)")
     auto

text \<open>The two ways to call it: \<^verbatim>\<open>ValidityState(x)\<close> and \<^verbatim>\<open>new ValidityState(x)\<close>.\<close>

datatype call_mode = Plain | New

definition call_ValidityState :: "call_mode \<Rightarrow> argument \<Rightarrow> heap \<Rightarrow> error + nat \<times> heap" where
  "call_ValidityState mode arg h =
     (case mode of
        Plain \<Rightarrow> ValidityState Undefined arg h
      | New \<Rightarrow> (case allocate h of (obj, h') \<Rightarrow> ValidityState (Instance obj) arg h'))"

text \<open>
  A sequence of constructor calls, each on the heap the previous one left; a call that
  throws leaves the cache as it was.
\<close>

fun calls :: "(call_mode \<times> argument) list \<Rightarrow> heap \<Rightarrow> heap" where
  "calls [] h = h"
| "calls ((mode, arg) # rest) h =
     (case call_ValidityState mode arg h of
        Inl e \<Rightarrow> calls rest h
      | Inr (obj, h') \<Rightarrow> calls rest h')"

text \<open>
  Every instance that is bound to a control is the one the cache holds for that control,
  and the addresses in use lie below the next free one.
\<close>

definition one_per_control :: "heap \<Rightarrow> bool" where
  "one_per_control h \<longleftrightarrow>
     (\<forall>obj c. instances h obj = Some (Some c) \<longrightarrow> cache h c = Some obj) \<and>
     (\<forall>obj. instances h obj \<noteq> None \<longrightarrow> obj < next_instance h)"

definition empty_heap :: heap where
  "empty_heap = \<lparr>cache = Map.empty, instances = Map.empty, next_instance = 0\<rparr>"

section \<open>Notions used in the statements\<close>

text \<open>
  The state in which the \<^verbatim>\<open>valid\<close> getter consults \<^verbatim>\<open>is_validation_candidate\<close> and the
  checkers: the control carries the validated class by then.
\<close>

definition validated :: "env \<Rightarrow> state \<Rightarrow> state" where
  "validated env s =
     classList_add (class_or (get_wrapper env (elem s)) classes_validated ''hf-validated'') s"

text \<open>
  Two snapshots of a control that differ at most in the presentation state the
  \<^verbatim>\<open>valid\<close> getter writes: the class list and the attribute \<^verbatim>\<open>aria-invalid\<close>.
\<close>

definition same_control :: "element \<Rightarrow> element \<Rightarrow> bool" where
  "same_control a b \<longleftrightarrow>
     ident a = ident b \<and> is_select a = is_select b \<and> elem_value a = elem_value b \<and>
     title a = title b \<and> (\<forall>k. k \<noteq> ''aria-invalid'' \<longrightarrow> attrs a k = attrs b k)"

text \<open>
  The collaborators depend on the control's value and constraint attributes only, not on
  its class list or on \<^verbatim>\<open>aria-invalid\<close>.
\<close>

definition presentation_blind :: "env \<Rightarrow> bool" where
  "presentation_blind env \<longleftrightarrow>
     (\<forall>a b. same_control a b \<longrightarrow>
        test_bad_input env a = test_bad_input env b \<and>
        test_pattern env a = test_pattern env b \<and>
        test_max env a = test_max env b \<and>
        test_min env a = test_min env b \<and>
        test_step env a = test_step env b \<and>
        test_maxlength env a = test_maxlength env b \<and>
        test_minlength env a = test_minlength env b \<and>
        test_type env a = test_type env b \<and>
        test_required env a = test_required env b \<and>
        get_type env a = get_type env b \<and>
        is_validation_candidate env a = is_validation_candidate env b \<and>
        get_next_valid env a = get_next_valid env b \<and>
        Registry_get env a = Registry_get env b \<and>
        (\<forall>v \<in> set (Registry_get env a). v a = v b))"

text \<open>
  Whether a checker fails on a control, and the message it then writes, read off a run
  on an empty store.
\<close>

definition fails :: "checker \<Rightarrow> env \<Rightarrow> element \<Rightarrow> bool" where
  "fails func env element = fst (func env \<lparr>elem = element, messages = Map.empty\<rparr>)"

definition written :: "checker \<Rightarrow> env \<Rightarrow> element \<Rightarrow> string" where
  "written func env element =
     msg_text (message_store_get element
                 (snd (func env \<lparr>elem = element, messages = Map.empty\<rparr>)))"

text \<open>
  A checker that decides from the control alone and, when it fails, overwrites the
  control's message; otherwise it leaves the state as it is.
\<close>

definition structural :: "checker \<Rightarrow> bool" where
  "structural func \<longleftrightarrow>
     (\<forall>env s. func env s =
        (if fails func env (elem s)
         then (True, message_store_set (elem s) (written func env (elem s)) s)
         else (False, s)))"

text \<open>The custom validator that reports an explicit failure, if there is one.\<close>

definition explicit_failure :: "validator list \<Rightarrow> element \<Rightarrow> bool" where
  "explicit_failure vs element \<longleftrightarrow> (\<exists>v \<in> set vs. v element = Some False)"

section \<open>A concrete environment\<close>

text \<open>
  Sample collaborators, for evaluating the engine on concrete controls: decimal numbers
  without sign, lengths counted per character of the model, an English catalogue with
  the key as the fallback, and a \<^verbatim>\<open>sprintf\<close> that substitutes the markers
  \<^verbatim>\<open>%l\<close> and \<^verbatim>\<open>%s\<close> from left to right.
\<close>

fun digits_value :: "string \<Rightarrow> nat \<Rightarrow> nat option" where
  "digits_value [] acc = Some acc"
| "digits_value (c # cs) acc =
     (case map_of (zip ''0123456789'' [0, 1, 2, 3, 4, 5, 6, 7, 8, 9]) c of
        None \<Rightarrow> None
      | Some d \<Rightarrow> digits_value cs (10 * acc + d))"

definition parse_number :: "string option \<Rightarrow> nat option" where
  "parse_number a =
     (case a of
        None \<Rightarrow> None
      | Some str \<Rightarrow> if str = [] then None else digits_value str 0)"

function show_nat :: "nat \<Rightarrow> string" where
  "show_nat n =
     (if n < 10 then [''0123456789'' ! n]
      else show_nat (n div 10) @ [''0123456789'' ! (n mod 10)])"
  by pat_completeness auto
termination
  by (relation "measure (\<lambda>n. n)") auto

fun render :: "jsval \<Rightarrow> string" where
  "render JSNull = ''null''"
| "render (JSString str) = str"
| "render (JSNumber i) = (if i < 0 then CHR ''-'' # show_nat (nat (- i)) else show_nat (nat i))"
| "render JSNaN = ''NaN''"
| "render (JSDate i) = (if i < 0 then CHR ''-'' # show_nat (nat (- i)) else show_nat (nat i))"

fun sample_sprintf :: "string \<Rightarrow> jsval list \<Rightarrow> string" where
  "sample_sprintf [] args = []"
| "sample_sprintf [c] args = [c]"
| "sample_sprintf (c # d # cs) args =
     (if c = CHR ''%'' \<and> (d = CHR ''l'' \<or> d = CHR ''s'')
      then (case args of
              [] \<Rightarrow> c # d # sample_sprintf cs []
            | a # rest \<Rightarrow> render a @ sample_sprintf cs rest)
      else c # sample_sprintf (d # cs) args)"

definition sample_translate :: "string \<Rightarrow> string" where
  "sample_translate key =
     (case map_of
        [(''TextTooLong'', ''Shorten to %l characters (now %l).''),
         (''ValueMissing'', ''Please fill out this field.''),
         (''NumberRangeOverflow'', ''No more than %l.''),
         (''NumberRangeUnderflow'', ''No less than %l.'')] key of
        None \<Rightarrow> key
      | Some template \<Rightarrow> template)"

definition sample_env :: env where
  "sample_env =
     \<lparr>test_bad_input = (\<lambda>e. True),
      test_pattern = (\<lambda>e. True),
      test_max = (\<lambda>e. case (parse_number (attrs e ''max''), parse_number (Some (elem_value e))) of
                         (Some m, Some v) \<Rightarrow> v \<le> m | _ \<Rightarrow> True),
      test_min = (\<lambda>e. case (parse_number (attrs e ''min''), parse_number (Some (elem_value e))) of
                         (Some m, Some v) \<Rightarrow> m \<le> v | _ \<Rightarrow> True),
      test_step = (\<lambda>e. True),
      test_maxlength = (\<lambda>e. case parse_number (attrs e ''maxlength'') of
                               Some m \<Rightarrow> elem_value e = [] \<or> length (elem_value e) \<le> m
                             | None \<Rightarrow> True),
      test_minlength = (\<lambda>e. case parse_number (attrs e ''minlength'') of
                               Some m \<Rightarrow> elem_value e = [] \<or> m \<le> length (elem_value e)
                             | None \<Rightarrow> True),
      test_type = (\<lambda>e. True),
      test_required = (\<lambda>e. attrs e ''required'' = None \<or> elem_value e \<noteq> []),
      get_type = (\<lambda>e. case attrs e ''type'' of None \<Rightarrow> ''text'' | Some t \<Rightarrow> t),
      is_validation_candidate = (\<lambda>e. attrs e ''disabled'' = None),
      get_next_valid = (\<lambda>e. (JSNull, JSNull)),
      string_to_date = (\<lambda>v t. v),
      string_to_number = (\<lambda>v t. case v of
                                   JSString str \<Rightarrow>
                                     (case parse_number (Some str) of
                                        Some n \<Rightarrow> JSNumber (int n)
                                      | None \<Rightarrow> JSNaN)
                                 | _ \<Rightarrow> JSNaN),
      unicode_string_length = length,
      translate = sample_translate,
      sprintf = sample_sprintf,
      Registry_get = (\<lambda>e. []),
      get_wrapper = (\<lambda>e. None)\<rparr>"

text \<open>A control with the given identity, value and attributes, and nothing else.\<close>

definition control :: "nat \<Rightarrow> string \<Rightarrow> (string \<times> string) list \<Rightarrow> state" where
  "control i v as =
     \<lparr>elem = \<lparr>ident = i, is_select = False, elem_value = v, title = [],
              attrs = map_of as, classList = []\<rparr>,
      messages = Map.empty\<rparr>"

section \<open>Properties\<close>

subsection \<open>The constructor\<close>

declare ValidityState.simps [simp del]

lemma ValidityState_NonElement:
  "ValidityState this (NonElement v) h = Inl (Error ''cannot create a ValidityState for a non-element'')"
  by (simp add: ValidityState.simps)

lemma ValidityState_cached:
  "cache h (ident c) = Some obj \<Longrightarrow> ValidityState this (HTMLElement c) h = Inr (obj, h)"
  by (simp add: ValidityState.simps)

lemma ValidityState_Instance_fresh:
  "cache h (ident c) = None \<Longrightarrow>
   ValidityState (Instance obj) (HTMLElement c) h =
     Inr (obj, h\<lparr>instances := (instances h)(obj \<mapsto> Some (ident c)),
                 cache := (cache h)(ident c \<mapsto> obj)\<rparr>)"
  by (simp add: ValidityState.simps)

lemma ValidityState_Undefined_fresh:
  "cache h (ident c) = None \<Longrightarrow>
   ValidityState Undefined (HTMLElement c) h =
     ValidityState (Instance (next_instance h)) (HTMLElement c) (snd (allocate h))"
  by (simp add: ValidityState.simps[of Undefined] allocate_def)

lemma cache_allocate: "cache (snd (allocate h)) = cache h"
  by (simp add: allocate_def)

lemma call_cached:
  "cache h (ident c) = Some obj \<Longrightarrow>
   \<exists>h'. call_ValidityState mode (HTMLElement c) h = Inr (obj, h') \<and> cache h' = cache h"
  by (cases mode) (simp_all add: call_ValidityState_def ValidityState_cached allocate_def)

lemma call_fresh:
  "cache h (ident c) = None \<Longrightarrow>
   \<exists>h'. call_ValidityState mode (HTMLElement c) h = Inr (next_instance h, h') \<and>
        cache h' = (cache h)(ident c \<mapsto> next_instance h)"
  by (cases mode)
     (simp_all add: call_ValidityState_def ValidityState_Undefined_fresh
        ValidityState_Instance_fresh allocate_def)

lemma call_element:
  "\<exists>obj h'. call_ValidityState mode (HTMLElement c) h = Inr (obj, h') \<and>
     cache h' (ident c) = Some obj \<and> (\<forall>k a. cache h k = Some a \<longrightarrow> cache h' k = Some a)"
proof (cases "cache h (ident c)")
  case None
  from call_fresh[OF None, of mode] show ?thesis using None by auto
next
  case (Some obj)
  from call_cached[OF Some, of mode] show ?thesis using Some by auto
qed

lemma call_keeps_cache:
  "call_ValidityState mode arg h = Inr (obj, h') \<Longrightarrow> cache h k = Some a \<Longrightarrow> cache h' k = Some a"
proof (cases arg)
  case (HTMLElement c)
  assume a: "call_ValidityState mode arg h = Inr (obj, h')" "cache h k = Some a"
  from call_element[of mode c h] a HTMLElement show ?thesis by auto
next
  case (NonElement v)
  assume a: "call_ValidityState mode arg h = Inr (obj, h')"
  with NonElement show ?thesis
    by (cases mode) (simp_all add: call_ValidityState_def ValidityState_NonElement allocate_def)
qed

lemma calls_keep_cache:
  "cache h k = Some a \<Longrightarrow> cache (calls cs h) k = Some a"
proof (induction cs arbitrary: h)
  case Nil
  then show ?case by simp
next
  case (Cons x cs)
  obtain mode arg where x: "x = (mode, arg)" by (cases x)
  show ?case
  proof (cases "call_ValidityState mode arg h")
    case (Inl e)
    with Cons x show ?thesis by simp
  next
    case (Inr r)
    obtain obj h' where r: "r = (obj, h')" by (cases r)
    from Inr r call_keeps_cache Cons.prems have "cache h' k = Some a" by blast
    with Cons.IH Inr r x show ?thesis by simp
  qed
qed

lemma call_one_per_control:
  assumes "one_per_control h" "call_ValidityState mode arg h = Inr (obj, h')"
  shows "one_per_control h'"
proof (cases arg)
  case (NonElement v)
  with assms show ?thesis
    by (cases mode) (simp_all add: call_ValidityState_def ValidityState_NonElement allocate_def)
next
  case (HTMLElement c)
  show ?thesis
  proof (cases "cache h (ident c)")
    case (Some a)
    with assms HTMLElement show ?thesis
      by (cases mode)
         (auto simp: call_ValidityState_def ValidityState_cached allocate_def one_per_control_def
               less_Suc_eq split: if_splits)
  next
    case None
    with assms HTMLElement show ?thesis
      by (cases mode)
         (auto simp: call_ValidityState_def ValidityState_Undefined_fresh
               ValidityState_Instance_fresh allocate_def one_per_control_def
               less_Suc_eq split: if_splits)
  qed
qed

lemma calls_one_per_control:
  "one_per_control h \<Longrightarrow> one_per_control (calls cs h)"
proof (induction cs arbitrary: h)
  case Nil
  then show ?case by simp
next
  case (Cons x cs)
  obtain mode arg where x: "x = (mode, arg)" by (cases x)
  show ?case
  proof (cases "call_ValidityState mode arg h")
    case (Inl e)
    with Cons x show ?thesis by simp
  next
    case (Inr r)
    obtain obj h' where r: "r = (obj, h')" by (cases r)
    from Inr r call_one_per_control Cons.prems have "one_per_control h'" by blast
    with Cons.IH Inr r x show ?thesis by simp
  qed
qed

text \<open>
  C8. Constructing a Validity State for an argument that is not an \<^verbatim>\<open>HTMLElement\<close>
  throws the error \<^verbatim>\<open>cannot create a ValidityState for a non-element\<close>, with and
  without \<^verbatim>\<open>new\<close>, whatever the argument and the heap are: no instance is returned and
  nothing is cached.
\<close>

theorem construction_misuse:
  "call_ValidityState mode (NonElement v) h =
     Inl (Error ''cannot create a ValidityState for a non-element'')"
  by (cases mode) (simp_all add: call_ValidityState_def ValidityState_NonElement allocate_def)

text \<open>
  C7. A constructor call for a control \<open>c\<close> returns an instance \<open>obj\<close>, and every later
  call for the same control identity, with or without \<^verbatim>\<open>new\<close> and after any other
  constructor calls in between, returns that same instance. On a heap where every
  instance bound to a control is the cached one of that control, this stays so: at
  most one Validity State exists per control.
\<close>

theorem single_instance:
  "\<exists>obj h1. call_ValidityState m1 (HTMLElement c) h = Inr (obj, h1) \<and>
     (\<forall>cs m2 c'. ident c' = ident c \<longrightarrow>
        (\<exists>h2. call_ValidityState m2 (HTMLElement c') (calls cs h1) = Inr (obj, h2))) \<and>
     (one_per_control h \<longrightarrow> (\<forall>cs. one_per_control (calls cs h1)))"
proof -
  from call_element[of m1 c h] obtain obj h1 where
    r: "call_ValidityState m1 (HTMLElement c) h = Inr (obj, h1)" and
    c: "cache h1 (ident c) = Some obj" by blast
  have "\<exists>h2. call_ValidityState m2 (HTMLElement c') (calls cs h1) = Inr (obj, h2)"
    if "ident c' = ident c" for cs m2 c'
  proof -
    from calls_keep_cache[OF c, of cs] that
    have "cache (calls cs h1) (ident c') = Some obj" by simp
    from call_cached[OF this, of m2] show ?thesis by blast
  qed
  moreover have "one_per_control (calls cs h1)" if "one_per_control h" for cs
    using calls_one_per_control call_one_per_control[OF that r] by blast
  ultimately show ?thesis using r by blast
qed

theorem single_instance_witness:
  "\<exists>obj h1.
     call_ValidityState Plain (HTMLElement (elem (control 1 ''a'' []))) empty_heap = Inr (obj, h1) \<and>
     (\<exists>h2. call_ValidityState New (HTMLElement (elem (control 1 ''b'' [])))
             (calls [(Plain, HTMLElement (elem (control 2 ''c'' [])))] h1) = Inr (obj, h2)) \<and>
     one_per_control (calls [(Plain, HTMLElement (elem (control 2 ''c'' [])))] h1)"
proof -
  have i: "ident (elem (control 1 ''b'' [])) = ident (elem (control 1 ''a'' []))"
    by (simp add: control_def)
  have o: "one_per_control empty_heap"
    by (simp add: one_per_control_def empty_heap_def)
  from single_instance[of Plain "elem (control 1 ''a'' [])" empty_heap]
  obtain obj h1 where
    r: "call_ValidityState Plain (HTMLElement (elem (control 1 ''a'' []))) empty_heap = Inr (obj, h1)"
    and a: "\<forall>cs m2 c'. ident c' = ident (elem (control 1 ''a'' [])) \<longrightarrow>
        (\<exists>h2. call_ValidityState m2 (HTMLElement c') (calls cs h1) = Inr (obj, h2))"
    and b: "one_per_control empty_heap \<longrightarrow> (\<forall>cs. one_per_control (calls cs h1))"
    by blast
  from a i have "\<exists>h2. call_ValidityState New (HTMLElement (elem (control 1 ''b'' [])))
             (calls [(Plain, HTMLElement (elem (control 2 ''c'' [])))] h1) = Inr (obj, h2)"
    by blast
  moreover from b o
  have "one_per_control (calls [(Plain, HTMLElement (elem (control 2 ''c'' [])))] h1)"
    by blast
  ultimately show ?thesis using r by blast
qed

subsection \<open>The checkers\<close>

lemma structural_badInput: "structural badInput"
  by (simp add: structural_def fails_def written_def badInput_def Let_def
        message_store_set_def message_store_get_def)

lemma structural_patternMismatch: "structural patternMismatch"
  by (simp add: structural_def fails_def written_def patternMismatch_def Let_def
        message_store_set_def message_store_get_def)

lemma structural_rangeOverflow: "structural rangeOverflow"
  by (simp add: structural_def fails_def written_def rangeOverflow_def Let_def
        message_store_set_def message_store_get_def)

lemma structural_rangeUnderflow: "structural rangeUnderflow"
  by (simp add: structural_def fails_def written_def rangeUnderflow_def Let_def
        message_store_set_def message_store_get_def)

lemma structural_stepMismatch: "structural stepMismatch"
  by (simp add: structural_def fails_def written_def stepMismatch_def Let_def
        message_store_set_def message_store_get_def split: prod.splits)

lemma structural_tooLong: "structural tooLong"
  by (simp add: structural_def fails_def written_def tooLong_def Let_def
        message_store_set_def message_store_get_def)

lemma structural_tooShort: "structural tooShort"
  by (simp add: structural_def fails_def written_def tooShort_def Let_def
        message_store_set_def message_store_get_def)

lemma structural_typeMismatch: "structural typeMismatch"
  by (simp add: structural_def fails_def written_def typeMismatch_def Let_def
        message_store_set_def message_store_get_def)

lemma structural_valueMissing: "structural valueMissing"
  by (simp add: structural_def fails_def written_def valueMissing_def Let_def
        message_store_set_def message_store_get_def)

lemma checkers_split:
  "validity_state_checkers =
     (''badInput'', badInput) # (''customError'', customError) # drop 2 validity_state_checkers"
  by (simp add: validity_state_checkers_def)

lemma rest_structural:
  "(p, f) \<in> set (drop 2 validity_state_checkers) \<Longrightarrow> structural f"
  by (auto simp: validity_state_checkers_def structural_patternMismatch
        structural_rangeOverflow structural_rangeUnderflow structural_stepMismatch
        structural_tooLong structural_tooShort structural_typeMismatch
        structural_valueMissing)

lemma customError_state: "snd (customError env s) = s"
  by (simp add: customError_def Let_def)

lemma call_validators_step:
  "call_validators (v # vs) e =
     (if v e = Some False then (False, 1)
      else (fst (call_validators vs e), Suc (snd (call_validators vs e))))"
  by (cases "v e") (auto simp: Let_def split: prod.splits)

lemma call_validators_valid:
  "fst (call_validators vs e) \<longleftrightarrow> \<not> explicit_failure vs e"
  by (induction vs)
     (simp_all add: call_validators_step explicit_failure_def del: call_validators.simps(2))

lemma explicit_failure_Nil: "\<not> explicit_failure [] e"
  by (simp add: explicit_failure_def)

lemma customError_fails:
  "fst (customError env s) \<longleftrightarrow>
     explicit_failure (Registry_get env (elem s)) (elem s) \<or>
     (msg_text (message_store_get (elem s) s) \<noteq> [] \<and> is_custom (message_store_get (elem s) s))"
  by (auto simp: customError_def Let_def call_validators_valid explicit_failure_Nil)

lemma checker_cases:
  "(p, f) \<in> set validity_state_checkers \<Longrightarrow> f = customError \<or> structural f"
  by (auto simp: validity_state_checkers_def structural_badInput structural_patternMismatch
        structural_rangeOverflow structural_rangeUnderflow structural_stepMismatch
        structural_tooLong structural_tooShort structural_typeMismatch
        structural_valueMissing)

lemma structural_frame:
  "structural f \<Longrightarrow>
     elem (snd (f env s)) = elem s \<and>
     (\<forall>k. k \<noteq> ident (elem s) \<longrightarrow> messages (snd (f env s)) k = messages s k) \<and>
     (\<not> fst (f env s) \<longrightarrow> snd (f env s) = s)"
  by (simp add: structural_def message_store_set_def)

lemma checker_frame:
  assumes "(p, f) \<in> set validity_state_checkers"
  shows "elem (snd (f env s)) = elem s \<and>
     (\<forall>k. k \<noteq> ident (elem s) \<longrightarrow> messages (snd (f env s)) k = messages s k) \<and>
     (\<not> fst (f env s) \<longrightarrow> snd (f env s) = s)"
  using checker_cases[OF assms] structural_frame[of f env s] customError_state[of env s]
  by auto

lemma first_invalid_pass:
  "\<forall>(p, f) \<in> set cs. \<not> fst (f env s) \<longrightarrow> snd (f env s) = s \<Longrightarrow>
   (fst (first_invalid env cs s) \<longleftrightarrow> (\<exists>(p, f) \<in> set cs. fst (f env s))) \<and>
   (\<not> fst (first_invalid env cs s) \<longrightarrow> snd (first_invalid env cs s) = s)"
proof (induction cs)
  case Nil
  then show ?case by simp
next
  case (Cons x cs)
  obtain p f where x: "x = (p, f)" by (cases x)
  obtain b s' where r: "f env s = (b, s')" by (cases "f env s")
  show ?case
  proof (cases b)
    case True
    with x r show ?thesis by simp
  next
    case False
    with Cons.prems x r have "s' = s" by simp
    moreover from Cons.prems
    have "\<forall>(p, f) \<in> set cs. \<not> fst (f env s) \<longrightarrow> snd (f env s) = s" by simp
    note Cons.IH[OF this]
    ultimately show ?thesis using x r False by simp
  qed
qed

lemma first_invalid_structural:
  "\<forall>(p, f) \<in> set cs. structural f \<Longrightarrow>
   first_invalid env cs s =
     (case find (\<lambda>(p, f). fails f env (elem s)) cs of
        None \<Rightarrow> (False, s)
      | Some (p, f) \<Rightarrow> (True, message_store_set (elem s) (written f env (elem s)) s))"
proof (induction cs)
  case Nil
  then show ?case by simp
next
  case (Cons x cs)
  obtain p f where x: "x = (p, f)" by (cases x)
  from Cons.prems x have "structural f" by simp
  then have f: "f env s =
        (if fails f env (elem s)
         then (True, message_store_set (elem s) (written f env (elem s)) s)
         else (False, s))"
    by (simp add: structural_def)
  from Cons.prems have "\<forall>(p, f) \<in> set cs. structural f" by simp
  note ih = Cons.IH[OF this]
  show ?case using x f ih by simp
qed

subsection \<open>Collaborators that ignore the presentation state\<close>

lemma same_control_refl: "same_control a a"
  by (simp add: same_control_def)

lemma same_control_sym: "same_control a b \<Longrightarrow> same_control b a"
  by (simp add: same_control_def)

lemma same_control_trans: "same_control a b \<Longrightarrow> same_control b c \<Longrightarrow> same_control a c"
  by (simp add: same_control_def)

lemma same_control_fields:
  assumes "same_control a b"
  shows "ident a = ident b" and "is_select a = is_select b"
    and "elem_value a = elem_value b" and "title a = title b"
    and "getAttribute a ''max'' = getAttribute b ''max''"
    and "getAttribute a ''maxlength'' = getAttribute b ''maxlength''"
    and "hasAttribute a ''multiple'' = hasAttribute b ''multiple''"
  using assms by (simp_all add: same_control_def getAttribute_def hasAttribute_def)

lemma blind_fields:
  assumes "presentation_blind env" and "same_control a b"
  shows "test_bad_input env a = test_bad_input env b"
    and "test_pattern env a = test_pattern env b"
    and "test_max env a = test_max env b"
    and "test_min env a = test_min env b"
    and "test_step env a = test_step env b"
    and "test_maxlength env a = test_maxlength env b"
    and "test_minlength env a = test_minlength env b"
    and "test_type env a = test_type env b"
    and "test_required env a = test_required env b"
    and "get_type env a = get_type env b"
    and "is_validation_candidate env a = is_validation_candidate env b"
    and "get_next_valid env a = get_next_valid env b"
    and "Registry_get env a = Registry_get env b"
    and "\<forall>v \<in> set (Registry_get env a). v a = v b"
  using assms unfolding presentation_blind_def by blast+

lemma blind_explicit_failure:
  assumes "presentation_blind env" and "same_control a b"
  shows "explicit_failure (Registry_get env a) a = explicit_failure (Registry_get env b) b"
  using blind_fields(13,14)[OF assms] unfolding explicit_failure_def by metis

lemma blind_badInput:
  assumes "presentation_blind env" and "same_control a b"
  shows "fails badInput env a = fails badInput env b \<and> written badInput env a = written badInput env b"
  using blind_fields[OF assms] same_control_fields[OF assms(2)]
  by (simp add: fails_def written_def badInput_def Let_def
        message_store_set_def message_store_get_def)

lemma blind_patternMismatch:
  assumes "presentation_blind env" and "same_control a b"
  shows "fails patternMismatch env a = fails patternMismatch env b \<and>
         written patternMismatch env a = written patternMismatch env b"
  using blind_fields[OF assms] same_control_fields[OF assms(2)]
  by (simp add: fails_def written_def patternMismatch_def Let_def
        message_store_set_def message_store_get_def)

lemma blind_rangeOverflow:
  assumes "presentation_blind env" and "same_control a b"
  shows "fails rangeOverflow env a = fails rangeOverflow env b \<and>
         written rangeOverflow env a = written rangeOverflow env b"
  using blind_fields[OF assms] same_control_fields[OF assms(2)]
  by (simp add: fails_def written_def rangeOverflow_def Let_def
        message_store_set_def message_store_get_def)

lemma blind_rangeUnderflow:
  assumes "presentation_blind env" and "same_control a b"
  shows "fails rangeUnderflow env a = fails rangeUnderflow env b \<and>
         written rangeUnderflow env a = written rangeUnderflow env b"
  using blind_fields[OF assms] same_control_fields[OF assms(2)]
  by (simp add: fails_def written_def rangeUnderflow_def Let_def
        message_store_set_def message_store_get_def)

lemma blind_stepMismatch:
  assumes "presentation_blind env" and "same_control a b"
  shows "fails stepMismatch env a = fails stepMismatch env b \<and>
         written stepMismatch env a = written stepMismatch env b"
  using blind_fields[OF assms] same_control_fields[OF assms(2)]
  by (simp add: fails_def written_def stepMismatch_def Let_def
        message_store_set_def message_store_get_def split: prod.splits)

lemma blind_tooLong:
  assumes "presentation_blind env" and "same_control a b"
  shows "fails tooLong env a = fails tooLong env b \<and>
         written tooLong env a = written tooLong env b"
  using blind_fields[OF assms] same_control_fields[OF assms(2)]
  by (simp add: fails_def written_def tooLong_def Let_def
        message_store_set_def message_store_get_def)

lemma blind_tooShort:
  assumes "presentation_blind env" and "same_control a b"
  shows "fails tooShort env a = fails tooShort env b \<and>
         written tooShort env a = written tooShort env b"
  using blind_fields[OF assms] same_control_fields[OF assms(2)]
  by (simp add: fails_def written_def tooShort_def Let_def
        message_store_set_def message_store_get_def)

lemma blind_typeMismatch:
  assumes "presentation_blind env" and "same_control a b"
  shows "fails typeMismatch env a = fails typeMismatch env b \<and>
         written typeMismatch env a = written typeMismatch env b"
  using blind_fields[OF assms] same_control_fields[OF assms(2)]
  by (simp add: fails_def written_def typeMismatch_def Let_def
        message_store_set_def message_store_get_def)

lemma blind_valueMissing:
  assumes "presentation_blind env" and "same_control a b"
  shows "fails valueMissing env a = fails valueMissing env b \<and>
         written valueMissing env a = written valueMissing env b"
  using blind_fields[OF assms] same_control_fields[OF assms(2)]
  by (simp add: fails_def written_def valueMissing_def Let_def
        message_store_set_def message_store_get_def)

lemma blind_rest:
  assumes "(p, f) \<in> set (drop 2 validity_state_checkers)"
    and "presentation_blind env" and "same_control a b"
  shows "fails f env a = fails f env b \<and> written f env a = written f env b"
  using assms(1) blind_patternMismatch[OF assms(2,3)] blind_rangeOverflow[OF assms(2,3)]
    blind_rangeUnderflow[OF assms(2,3)] blind_stepMismatch[OF assms(2,3)]
    blind_tooLong[OF assms(2,3)] blind_tooShort[OF assms(2,3)]
    blind_typeMismatch[OF assms(2,3)] blind_valueMissing[OF assms(2,3)]
  by (auto simp: validity_state_checkers_def)

subsection \<open>The loop over the checkers\<close>

lemma first_invalid_checkers:
  "first_invalid env validity_state_checkers t =
     (if fails badInput env (elem t)
      then (True, message_store_set (elem t) (written badInput env (elem t)) t)
      else if fst (customError env t) then (True, t)
      else (case find (\<lambda>(p, f). fails f env (elem t)) (drop 2 validity_state_checkers) of
              None \<Rightarrow> (False, t)
            | Some (p, f) \<Rightarrow>
                (True, message_store_set (elem t) (written f env (elem t)) t)))"
proof -
  have b: "badInput env t =
        (if fails badInput env (elem t)
         then (True, message_store_set (elem t) (written badInput env (elem t)) t)
         else (False, t))"
    using structural_badInput by (simp add: structural_def)
  have c: "customError env t = (fst (customError env t), t)"
    using customError_state[of env t] by (cases "customError env t") simp
  have r: "first_invalid env (drop 2 validity_state_checkers) t =
     (case find (\<lambda>(p, f). fails f env (elem t)) (drop 2 validity_state_checkers) of
        None \<Rightarrow> (False, t)
      | Some (p, f) \<Rightarrow> (True, message_store_set (elem t) (written f env (elem t)) t))"
    by (rule first_invalid_structural) (auto dest: rest_structural)
  show ?thesis
  proof (cases "fails badInput env (elem t)")
    case True
    with b have "badInput env t =
        (True, message_store_set (elem t) (written badInput env (elem t)) t)"
      by simp
    with True show ?thesis by (subst checkers_split) simp
  next
    case False
    with b have b': "badInput env t = (False, t)" by simp
    show ?thesis
    proof (cases "fst (customError env t)")
      case True
      with c have "customError env t = (True, t)" by simp
      with b' False True show ?thesis by (subst checkers_split) simp
    next
      case F: False
      with c have "customError env t = (False, t)" by simp
      with b' False F r show ?thesis by (subst checkers_split) simp
    qed
  qed
qed

lemma first_invalid_elem:
  "elem (snd (first_invalid env validity_state_checkers t)) = elem t"
  by (simp add: first_invalid_checkers message_store_set_def split: option.splits prod.splits)

lemma first_invalid_other_messages:
  "k \<noteq> ident (elem t) \<Longrightarrow>
   messages (snd (first_invalid env validity_state_checkers t)) k = messages t k"
  by (simp add: first_invalid_checkers message_store_set_def split: option.splits prod.splits)

lemma message_store_get_cong:
  "ident a = ident b \<Longrightarrow> messages t = messages t' \<Longrightarrow>
   message_store_get a t = message_store_get b t'"
  by (simp add: message_store_get_def)

lemma blind_customError:
  assumes "presentation_blind env" and "same_control (elem t) (elem t')"
    and "messages t = messages t'"
  shows "fst (customError env t) = fst (customError env t')"
  using blind_explicit_failure[OF assms(1,2)]
    message_store_get_cong[OF same_control_fields(1)[OF assms(2)] assms(3)]
  by (simp add: customError_fails)

lemma blind_find:
  assumes "presentation_blind env" and "same_control a b"
  shows "find (\<lambda>(p, f). fails f env a) (drop 2 validity_state_checkers) =
         find (\<lambda>(p, f). fails f env b) (drop 2 validity_state_checkers)"
  by (rule find_cong) (auto dest: blind_rest[OF _ assms])

lemma find_rest_written:
  assumes "presentation_blind env" and "same_control a b"
    and "find (\<lambda>(p, f). fails f env a) (drop 2 validity_state_checkers) = Some (p, f)"
  shows "written f env a = written f env b"
proof -
  from assms(3) have "(p, f) \<in> set (drop 2 validity_state_checkers)"
    by (auto simp: find_Some_iff in_set_conv_nth)
  from blind_rest[OF this assms(1,2)] show ?thesis by simp
qed

lemma blind_first_invalid:
  assumes "presentation_blind env" and "same_control (elem t) (elem t')"
    and "messages t = messages t'"
  shows "fst (first_invalid env validity_state_checkers t) =
         fst (first_invalid env validity_state_checkers t')"
    and "messages (snd (first_invalid env validity_state_checkers t)) =
         messages (snd (first_invalid env validity_state_checkers t'))"
proof -
  note b = blind_badInput[OF assms(1,2)]
  note c = blind_customError[OF assms]
  note f = blind_find[OF assms(1,2)]
  note i = same_control_fields(1)[OF assms(2)]
  show "fst (first_invalid env validity_state_checkers t) =
         fst (first_invalid env validity_state_checkers t')"
    using b c f by (simp add: first_invalid_checkers split: option.splits prod.splits)
  show "messages (snd (first_invalid env validity_state_checkers t)) =
         messages (snd (first_invalid env validity_state_checkers t'))"
  proof (cases "find (\<lambda>(p, f). fails f env (elem t)) (drop 2 validity_state_checkers)")
    case None
    with b c f i assms(3) show ?thesis
      by (simp add: first_invalid_checkers message_store_set_def)
  next
    case (Some x)
    obtain p g where x: "x = (p, g)" by (cases x)
    from find_rest_written[OF assms(1,2)] Some x
    have "written g env (elem t) = written g env (elem t')" by simp
    with Some x b c f i assms(3) show ?thesis
      by (simp add: first_invalid_checkers message_store_set_def)
  qed
qed

subsection \<open>The aggregate facet\<close>

lemma dom_ops_messages:
  "messages (classList_add c s) = messages s"
  "messages (classList_remove c s) = messages s"
  "messages (setAttribute n v s) = messages s"
  "messages (message_store_delete e s) = (messages s)(ident e := None)"
  "messages (message_store_set e m s) =
     (messages s)(ident e \<mapsto> \<lparr>msg_text = m, is_custom = False\<rparr>)"
  by (simp_all add: classList_add_def classList_remove_def setAttribute_def
        message_store_delete_def message_store_set_def)

lemma dom_ops_same_control:
  "same_control a (elem s) \<Longrightarrow> same_control a (elem (classList_add c s))"
  "same_control a (elem s) \<Longrightarrow> same_control a (elem (classList_remove c s))"
  "same_control a (elem s) \<Longrightarrow> same_control a (elem (setAttribute ''aria-invalid'' v s))"
  "same_control a (elem s) \<Longrightarrow> same_control a (elem (message_store_delete e s))"
  "same_control a (elem s) \<Longrightarrow> same_control a (elem (message_store_set e m s))"
  by (simp_all add: classList_add_def classList_remove_def setAttribute_def
        message_store_delete_def message_store_set_def same_control_def)

lemma validated_same_control: "same_control (elem s) (elem (validated env s))"
  by (simp add: validated_def dom_ops_same_control same_control_refl)

lemma validated_messages: "messages (validated env s) = messages s"
  by (simp add: validated_def dom_ops_messages)

lemma validated_ident: "ident (elem (validated env s)) = ident (elem s)"
  using validated_same_control[of s env] by (simp add: same_control_def)

lemma valid_fst:
  "fst (valid env s) \<longleftrightarrow>
     \<not> (is_validation_candidate env (elem (validated env s)) \<and>
        fst (first_invalid env validity_state_checkers (validated env s)))"
  by (simp add: valid_def validated_def Let_def split: prod.splits)

lemma first_invalid_pass_state:
  "\<not> fst (first_invalid env validity_state_checkers t) \<Longrightarrow>
   snd (first_invalid env validity_state_checkers t) = t"
  by (simp add: first_invalid_checkers split: option.splits prod.splits if_splits)

lemma valid_messages:
  "messages (snd (valid env s)) =
     (if is_validation_candidate env (elem (validated env s)) \<and>
         fst (first_invalid env validity_state_checkers (validated env s))
      then messages (snd (first_invalid env validity_state_checkers (validated env s)))
      else (messages s)(ident (elem s) := None))"
proof -
  let ?s1 = "validated env s"
  let ?r = "first_invalid env validity_state_checkers ?s1"
  show ?thesis
  proof (cases "is_validation_candidate env (elem ?s1)")
    case False
    then show ?thesis
      using validated_ident[of env s] validated_messages[of env s]
      by (simp add: valid_def validated_def[symmetric] Let_def dom_ops_messages)
  next
    case True
    obtain b s2 where r: "?r = (b, s2)" by (cases ?r)
    show ?thesis
    proof (cases b)
      case T: True
      with True r show ?thesis
        by (simp add: valid_def validated_def[symmetric] Let_def dom_ops_messages)
    next
      case F: False
      with r first_invalid_pass_state[of env ?s1] have "s2 = ?s1" by simp
      with True r F show ?thesis
        using validated_ident[of env s] validated_messages[of env s]
        by (simp add: valid_def validated_def[symmetric] Let_def dom_ops_messages)
    qed
  qed
qed

lemma valid_same_control: "same_control (elem s) (elem (snd (valid env s)))"
proof -
  let ?s1 = "validated env s"
  let ?r = "first_invalid env validity_state_checkers ?s1"
  have "same_control (elem s) (elem (snd ?r))"
    using validated_same_control[of s env] by (simp add: first_invalid_elem)
  moreover obtain b s2 where r: "?r = (b, s2)" by (cases ?r)
  ultimately show ?thesis
    using validated_same_control[of s env]
    by (simp add: valid_def validated_def[symmetric] Let_def dom_ops_same_control)
qed

lemma checker_pass_state:
  "\<forall>(p, f) \<in> set validity_state_checkers. \<not> fst (f env t) \<longrightarrow> snd (f env t) = t"
  using checker_frame by blast

lemma first_invalid_any:
  "fst (first_invalid env validity_state_checkers t) \<longleftrightarrow>
     (\<exists>(p, f) \<in> set validity_state_checkers. fst (f env t))"
  using first_invalid_pass[OF checker_pass_state] by blast

lemma blind_checker:
  assumes "(p, f) \<in> set validity_state_checkers"
    and "presentation_blind env" and "same_control (elem t) (elem t')"
    and "messages t = messages t'"
  shows "fst (f env t) = fst (f env t')"
proof -
  from assms(1) have "f = badInput \<or> f = customError \<or> (p, f) \<in> set (drop 2 validity_state_checkers)"
    by (subst (asm) checkers_split) auto
  then show ?thesis
  proof (elim disjE)
    assume "f = badInput"
    with blind_badInput[OF assms(2,3)] structural_badInput show ?thesis
      by (simp add: structural_def)
  next
    assume "f = customError"
    with blind_customError[OF assms(2-4)] show ?thesis by simp
  next
    assume r: "(p, f) \<in> set (drop 2 validity_state_checkers)"
    from rest_structural[OF r] blind_rest[OF r assms(2,3)] show ?thesis
      by (simp add: structural_def)
  qed
qed

lemma first_invalid_append:
  "first_invalid env (xs @ ys) t =
     (case first_invalid env xs t of
        (True, t') \<Rightarrow> (True, t')
      | (False, t') \<Rightarrow> first_invalid env ys t')"
  by (induction xs arbitrary: t) (auto split: prod.splits bool.splits)

lemma checkers_around_tooLong:
  "validity_state_checkers =
     take 6 validity_state_checkers @ (''tooLong'', tooLong) # drop 7 validity_state_checkers"
  "take 7 validity_state_checkers = take 6 validity_state_checkers @ [(''tooLong'', tooLong)]"
  by (simp_all add: validity_state_checkers_def)

lemma first_invalid_sub_elem:
  "set cs \<subseteq> set validity_state_checkers \<Longrightarrow> elem (snd (first_invalid env cs t)) = elem t"
proof (induction cs arbitrary: t)
  case Nil
  then show ?case by simp
next
  case (Cons x cs)
  obtain p f where x: "x = (p, f)" by (cases x)
  with Cons.prems have "(p, f) \<in> set validity_state_checkers" by simp
  from checker_frame[OF this, of env t] have e: "elem (snd (f env t)) = elem t" by simp
  from Cons.prems have "set cs \<subseteq> set validity_state_checkers" by simp
  note ih = Cons.IH[OF this]
  obtain b t' where r: "f env t = (b, t')" by (cases "f env t")
  with e have "elem t' = elem t" by simp
  with ih[of t'] x r show ?case by (cases b) simp_all
qed

lemma tooLong_fails:
  "\<not> test_maxlength env (elem t) \<Longrightarrow>
   tooLong env t =
     (True, message_store_set (elem t)
        (sprintf env (translate env ''TextTooLong'')
           [getAttribute (elem t) ''maxlength'',
            JSNumber (int (unicode_string_length env (elem_value (elem t))))]) t)"
  by (simp add: tooLong_def Let_def)

lemma stops_at_tooLong:
  assumes "\<not> test_maxlength env (elem t)"
  shows "first_invalid env validity_state_checkers t =
         first_invalid env (take 7 validity_state_checkers) t"
proof -
  obtain b t' where r: "first_invalid env (take 6 validity_state_checkers) t = (b, t')"
    by (cases "first_invalid env (take 6 validity_state_checkers) t")
  have "elem (snd (first_invalid env (take 6 validity_state_checkers) t)) = elem t"
    by (rule first_invalid_sub_elem) (rule set_take_subset)
  with r have "elem t' = elem t" by simp
  with assms have "\<not> test_maxlength env (elem t')" by simp
  note tl = tooLong_fails[OF this]
  have "first_invalid env validity_state_checkers t =
        first_invalid env (take 6 validity_state_checkers @
          (''tooLong'', tooLong) # drop 7 validity_state_checkers) t"
    using checkers_around_tooLong(1) by simp
  also have "\<dots> = first_invalid env (take 6 validity_state_checkers @ [(''tooLong'', tooLong)]) t"
    using r tl by (cases b) (simp_all add: first_invalid_append)
  finally show ?thesis by (simp only: checkers_around_tooLong(2))
qed

lemma message_store_set_twice:
  "message_store_set e m (message_store_set e m t) = message_store_set e m t"
  by (simp add: message_store_set_def)

lemma message_store_set_elem: "elem (message_store_set e m t) = elem t"
  by (simp add: message_store_set_def)

lemma message_store_delete_elem: "elem (message_store_delete e t) = elem t"
  by (simp add: message_store_delete_def)

lemma message_store_get_set:
  "message_store_get e (message_store_set e m t) = \<lparr>msg_text = m, is_custom = False\<rparr>"
  by (simp add: message_store_get_def message_store_set_def)

lemma message_store_get_delete:
  "message_store_get e (message_store_delete e t) = \<lparr>msg_text = [], is_custom = False\<rparr>"
  by (simp add: message_store_get_def message_store_delete_def)

lemma first_invalid_again:
  assumes "fst (first_invalid env validity_state_checkers t)"
  shows "first_invalid env validity_state_checkers
           (snd (first_invalid env validity_state_checkers t)) =
         first_invalid env validity_state_checkers t"
proof (cases "fails badInput env (elem t)")
  case True
  then show ?thesis
    by (simp add: first_invalid_checkers message_store_set_elem message_store_set_twice)
next
  case nb: False
  show ?thesis
  proof (cases "fst (customError env t)")
    case True
    with nb show ?thesis by (simp add: first_invalid_checkers)
  next
    case nc: False
    show ?thesis
    proof (cases "find (\<lambda>(p, f). fails f env (elem t)) (drop 2 validity_state_checkers)")
      case None
      with nb nc assms show ?thesis by (simp add: first_invalid_checkers)
    next
      case (Some x)
      obtain p f where x: "x = (p, f)" by (cases x)
      let ?t2 = "message_store_set (elem t) (written f env (elem t)) t"
      from nc have "\<not> fst (customError env ?t2)"
        by (simp add: customError_fails message_store_set_elem message_store_get_set)
      with nb nc Some x show ?thesis
        by (simp add: first_invalid_checkers message_store_set_elem message_store_set_twice)
    qed
  qed
qed

lemma first_invalid_after_delete:
  assumes "\<not> fst (first_invalid env validity_state_checkers t)"
  shows "\<not> fst (first_invalid env validity_state_checkers (message_store_delete (elem t) t))"
proof -
  let ?t2 = "message_store_delete (elem t) t"
  from assms have nb: "\<not> fails badInput env (elem t)"
    and nc: "\<not> fst (customError env t)"
    and nf: "find (\<lambda>(p, f). fails f env (elem t)) (drop 2 validity_state_checkers) = None"
    by (auto simp: first_invalid_checkers split: if_splits option.splits)
  from nc have "\<not> fst (customError env ?t2)"
    by (simp add: customError_fails message_store_delete_elem message_store_get_delete)
  with nb nf show ?thesis
    by (simp add: first_invalid_checkers message_store_delete_elem)
qed

lemma call_validators_count:
  "snd (call_validators vs e) =
     length (takeWhile (\<lambda>v. v e \<noteq> Some False) vs) + (if explicit_failure vs e then 1 else 0)"
  by (induction vs)
     (simp_all add: call_validators_step explicit_failure_def del: call_validators.simps(2))

subsection \<open>The sample environment\<close>

lemmas sample_defs =
  sample_env_def control_def sample_translate_def parse_number_def
  getAttribute_def hasAttribute_def message_store_set_def message_store_get_def
  message_store_delete_def classList_add_def classList_remove_def setAttribute_def
  class_or_def Let_def

lemmas checker_defs =
  badInput_def customError_def patternMismatch_def rangeOverflow_def rangeUnderflow_def
  stepMismatch_def tooLong_def tooShort_def typeMismatch_def valueMissing_def

lemma show_nat_digit: "n < 10 \<Longrightarrow> show_nat n = [''0123456789'' ! n]"
  by (simp add: show_nat.simps)

lemma show_nat_10: "show_nat 10 = ''10''"
  by (subst show_nat.simps) (simp add: show_nat_digit)

lemma sample_env_blind: "presentation_blind sample_env"
  unfolding presentation_blind_def
proof (intro allI impI)
  fix a b
  assume "same_control a b"
  then have "elem_value a = elem_value b"
    and "\<And>k. k \<noteq> ''aria-invalid'' \<Longrightarrow> attrs a k = attrs b k"
    by (simp_all add: same_control_def)
  then show "test_bad_input sample_env a = test_bad_input sample_env b \<and>
        test_pattern sample_env a = test_pattern sample_env b \<and>
        test_max sample_env a = test_max sample_env b \<and>
        test_min sample_env a = test_min sample_env b \<and>
        test_step sample_env a = test_step sample_env b \<and>
        test_maxlength sample_env a = test_maxlength sample_env b \<and>
        test_minlength sample_env a = test_minlength sample_env b \<and>
        test_type sample_env a = test_type sample_env b \<and>
        test_required sample_env a = test_required sample_env b \<and>
        get_type sample_env a = get_type sample_env b \<and>
        is_validation_candidate sample_env a = is_validation_candidate sample_env b \<and>
        get_next_valid sample_env a = get_next_valid sample_env b \<and>
        Registry_get sample_env a = Registry_get sample_env b \<and>
        (\<forall>v \<in> set (Registry_get sample_env a). v a = v b)"
    by (simp add: sample_env_def cong: option.case_cong)
qed

section \<open>The claims about the facets\<close>

subsection \<open>Short-circuit order\<close>

text \<open>
  C1, as amended. In the fixed order \<^verbatim>\<open>tooLong\<close> is the seventh checker and
  \<^verbatim>\<open>valueMissing\<close> the tenth. For a validation candidate whose maxlength and required
  predicates both fail, reading \<^verbatim>\<open>valid\<close> returns false and the loop ends with
  \<^verbatim>\<open>tooLong\<close> at the latest, so \<^verbatim>\<open>valueMissing\<close> is not run: the loop over all ten
  checkers is the loop over the first seven. When none of the six checkers before
  \<^verbatim>\<open>tooLong\<close> fails, the message left for the control is the one of \<^verbatim>\<open>tooLong\<close>.
\<close>

theorem short_circuit_order:
  assumes "is_validation_candidate env (elem (validated env s))"
    and "\<not> test_maxlength env (elem (validated env s))"
    and "\<not> test_required env (elem (validated env s))"
  shows "\<not> fst (valid env s) \<and>
         first_invalid env validity_state_checkers (validated env s) =
           first_invalid env (take 7 validity_state_checkers) (validated env s) \<and>
         ((\<forall>(prop, func) \<in> set (take 6 validity_state_checkers).
              \<not> fst (func env (validated env s))) \<longrightarrow>
          message_store_get (elem s) (snd (valid env s)) =
            \<lparr>msg_text =
               sprintf env (translate env ''TextTooLong'')
                 [getAttribute (elem s) ''maxlength'',
                  JSNumber (int (unicode_string_length env (elem_value (elem s))))],
             is_custom = False\<rparr>)"
proof -
  let ?s1 = "validated env s"
  note sc = validated_same_control[of s env]
  note tl = tooLong_fails[OF assms(2)]
  have "(''tooLong'', tooLong) \<in> set validity_state_checkers"
    by (simp add: validity_state_checkers_def)
  with tl have f: "fst (first_invalid env validity_state_checkers ?s1)"
    by (force simp: first_invalid_any)
  with assms(1) have a: "\<not> fst (valid env s)" by (simp add: valid_fst)
  note b = stops_at_tooLong[OF assms(2)]
  have "message_store_get (elem s) (snd (valid env s)) =
            \<lparr>msg_text =
               sprintf env (translate env ''TextTooLong'')
                 [getAttribute (elem s) ''maxlength'',
                  JSNumber (int (unicode_string_length env (elem_value (elem s))))],
             is_custom = False\<rparr>"
    if six: "\<forall>(prop, func) \<in> set (take 6 validity_state_checkers). \<not> fst (func env ?s1)"
  proof -
    have "\<forall>(p, f) \<in> set (take 6 validity_state_checkers).
            \<not> fst (f env ?s1) \<longrightarrow> snd (f env ?s1) = ?s1"
      using checker_pass_state[of env ?s1] by (auto dest: in_set_takeD)
    from first_invalid_pass[OF this] six
    have "first_invalid env (take 6 validity_state_checkers) ?s1 = (False, ?s1)"
      by (cases "first_invalid env (take 6 validity_state_checkers) ?s1") auto
    with tl have "first_invalid env (take 7 validity_state_checkers) ?s1 =
        (True, message_store_set (elem ?s1)
        (sprintf env (translate env ''TextTooLong'')
           [getAttribute (elem ?s1) ''maxlength'',
            JSNumber (int (unicode_string_length env (elem_value (elem ?s1))))]) ?s1)"
      by (simp add: checkers_around_tooLong(2) first_invalid_append)
    with b f assms(1) have "messages (snd (valid env s)) =
       messages (message_store_set (elem ?s1)
        (sprintf env (translate env ''TextTooLong'')
           [getAttribute (elem ?s1) ''maxlength'',
            JSNumber (int (unicode_string_length env (elem_value (elem ?s1))))]) ?s1)"
      by (simp add: valid_messages)
    then show ?thesis
      using same_control_fields[OF sc]
      by (simp add: message_store_get_def dom_ops_messages)
  qed
  with a b show ?thesis by blast
qed

theorem short_circuit_order_witness:
  "is_validation_candidate (sample_env\<lparr>test_required := (\<lambda>e. False)\<rparr>)
     (elem (validated (sample_env\<lparr>test_required := (\<lambda>e. False)\<rparr>)
        (control 1 ''abc'' [(''maxlength'', ''2'')]))) \<and>
   \<not> test_maxlength (sample_env\<lparr>test_required := (\<lambda>e. False)\<rparr>)
     (elem (validated (sample_env\<lparr>test_required := (\<lambda>e. False)\<rparr>)
        (control 1 ''abc'' [(''maxlength'', ''2'')]))) \<and>
   \<not> test_required (sample_env\<lparr>test_required := (\<lambda>e. False)\<rparr>)
     (elem (validated (sample_env\<lparr>test_required := (\<lambda>e. False)\<rparr>)
        (control 1 ''abc'' [(''maxlength'', ''2'')]))) \<and>
   \<not> fst (valid (sample_env\<lparr>test_required := (\<lambda>e. False)\<rparr>)
            (control 1 ''abc'' [(''maxlength'', ''2'')])) \<and>
   message_store_get (elem (control 1 ''abc'' [(''maxlength'', ''2'')]))
     (snd (valid (sample_env\<lparr>test_required := (\<lambda>e. False)\<rparr>)
             (control 1 ''abc'' [(''maxlength'', ''2'')]))) =
     \<lparr>msg_text = ''Shorten to 2 characters (now 3).'', is_custom = False\<rparr>"
proof -
  let ?E = "sample_env\<lparr>test_required := (\<lambda>e. False)\<rparr>"
  let ?S = "control 1 ''abc'' [(''maxlength'', ''2'')]"
  have c: "is_validation_candidate ?E (elem (validated ?E ?S))"
    by (simp add: validated_def sample_defs)
  have l: "\<not> test_maxlength ?E (elem (validated ?E ?S))"
    by (simp add: validated_def sample_defs)
  have r: "\<not> test_required ?E (elem (validated ?E ?S))"
    by (simp add: sample_defs)
  have six: "\<forall>(prop, func) \<in> set (take 6 validity_state_checkers).
               \<not> fst (func ?E (validated ?E ?S))"
    by (simp add: validity_state_checkers_def validated_def checker_defs sample_defs)
  have m: "sprintf ?E (translate ?E ''TextTooLong'')
                 [getAttribute (elem ?S) ''maxlength'',
                  JSNumber (int (unicode_string_length ?E (elem_value (elem ?S))))] =
           ''Shorten to 2 characters (now 3).''"
    by (simp add: sample_defs show_nat_digit)
  from short_circuit_order[OF c l r] six m c l r show ?thesis by simp
qed

text \<open>
  C1 as stated fails: on a control whose required and maxlength predicates both fail,
  \<^verbatim>\<open>valid\<close> is false and the message left is the one of \<^verbatim>\<open>tooLong\<close>, not the one
  \<^verbatim>\<open>valueMissing\<close> would write.
\<close>

theorem tooLong_precedes_valueMissing:
  "\<not> test_required (sample_env\<lparr>test_required := (\<lambda>e. False)\<rparr>)
       (elem (control 1 ''abc'' [(''maxlength'', ''2'')])) \<and>
   \<not> test_maxlength (sample_env\<lparr>test_required := (\<lambda>e. False)\<rparr>)
       (elem (control 1 ''abc'' [(''maxlength'', ''2'')])) \<and>
   fst (valid (sample_env\<lparr>test_required := (\<lambda>e. False)\<rparr>)
          (control 1 ''abc'' [(''maxlength'', ''2'')])) = False \<and>
   msg_text (message_store_get (elem (control 1 ''abc'' [(''maxlength'', ''2'')]))
      (snd (valid (sample_env\<lparr>test_required := (\<lambda>e. False)\<rparr>)
             (control 1 ''abc'' [(''maxlength'', ''2'')])))) =
     ''Shorten to 2 characters (now 3).'' \<and>
   msg_text (message_store_get (elem (control 1 ''abc'' [(''maxlength'', ''2'')]))
      (snd (valueMissing (sample_env\<lparr>test_required := (\<lambda>e. False)\<rparr>)
             (control 1 ''abc'' [(''maxlength'', ''2'')])))) =
     ''Please fill out this field.''"
  by (simp add: valid_def validity_state_checkers_def checker_defs sample_defs show_nat_digit)

subsection \<open>The message of rangeUnderflow\<close>

text \<open>
  Whatever the collaborators are, the message of \<^verbatim>\<open>rangeUnderflow\<close> is determined by
  the control's type and its \<^verbatim>\<open>max\<close> attribute; the \<^verbatim>\<open>min\<close> attribute is not read.
\<close>

lemma rangeUnderflow_reads_max:
  assumes "\<not> test_min env (elem s)" and "\<not> test_min env (elem s')"
    and "get_type env (elem s) = get_type env (elem s')"
    and "attrs (elem s) ''max'' = attrs (elem s') ''max''"
  shows "message_store_get (elem s) (snd (rangeUnderflow env s)) =
         message_store_get (elem s') (snd (rangeUnderflow env s'))"
  using assms
  by (simp add: rangeUnderflow_def Let_def getAttribute_def message_store_get_set)

text \<open>
  C2. On a number control with \<^verbatim>\<open>min="5"\<close>, \<^verbatim>\<open>max="10"\<close> and the value 3 the min
  predicate fails, and the message \<^verbatim>\<open>rangeUnderflow\<close> writes renders 10, the
  \<^verbatim>\<open>max\<close> attribute, not the declared min bound 5: the checker reads
  \<^verbatim>\<open>getAttribute('max')\<close> in all three branches, as \<^verbatim>\<open>rangeOverflow\<close> does for the
  max bound.
\<close>

theorem rangeUnderflow_renders_max:
  "\<not> test_min sample_env
       (elem (control 1 ''3'' [(''type'', ''number''), (''min'', ''5''), (''max'', ''10'')])) \<and>
   fst (rangeUnderflow sample_env
          (control 1 ''3'' [(''type'', ''number''), (''min'', ''5''), (''max'', ''10'')])) \<and>
   msg_text (message_store_get
      (elem (control 1 ''3'' [(''type'', ''number''), (''min'', ''5''), (''max'', ''10'')]))
      (snd (rangeUnderflow sample_env
              (control 1 ''3'' [(''type'', ''number''), (''min'', ''5''), (''max'', ''10'')])))) =
     ''No less than 10.''"
  by (simp add: rangeUnderflow_def sample_defs show_nat_10)

subsection \<open>The message of tooShort\<close>

text \<open>
  Likewise the message of \<^verbatim>\<open>tooShort\<close> is determined by the \<^verbatim>\<open>maxlength\<close>
  attribute and the value; the \<^verbatim>\<open>minlength\<close> attribute is not read.
\<close>

lemma tooShort_reads_maxlength:
  assumes "\<not> test_minlength env (elem s)" and "\<not> test_minlength env (elem s')"
    and "elem_value (elem s) = elem_value (elem s')"
    and "attrs (elem s) ''maxlength'' = attrs (elem s') ''maxlength''"
  shows "message_store_get (elem s) (snd (tooShort env s)) =
         message_store_get (elem s') (snd (tooShort env s'))"
  using assms
  by (simp add: tooShort_def Let_def getAttribute_def message_store_get_set)

text \<open>
  C3. On a control with \<^verbatim>\<open>minlength="5"\<close>, \<^verbatim>\<open>maxlength="10"\<close> and the value
  \<^verbatim>\<open>abc\<close> the minlength predicate fails, and the message \<^verbatim>\<open>tooShort\<close> writes asks
  for 10 characters or more, the \<^verbatim>\<open>maxlength\<close> attribute, not the declared minlength
  5, next to the value's length 3.
\<close>

theorem tooShort_cites_maxlength:
  "\<not> test_minlength sample_env
       (elem (control 1 ''abc'' [(''minlength'', ''5''), (''maxlength'', ''10'')])) \<and>
   fst (tooShort sample_env
          (control 1 ''abc'' [(''minlength'', ''5''), (''maxlength'', ''10'')])) \<and>
   msg_text (message_store_get
      (elem (control 1 ''abc'' [(''minlength'', ''5''), (''maxlength'', ''10'')]))
      (snd (tooShort sample_env
              (control 1 ''abc'' [(''minlength'', ''5''), (''maxlength'', ''10'')])))) =
     ''Please lengthen this text to 10 characters or more (you are currently using 3 characters).''"
  by (simp add: tooShort_def sample_defs show_nat_digit)

subsection \<open>The aggregate facet and the ten checkers\<close>

text \<open>
  C4. Reading \<^verbatim>\<open>valid\<close> returns true if and only if the control is not a validation
  candidate or none of the ten checkers of \<^verbatim>\<open>validity_state_checkers\<close> reports a
  failure. The getter asks both questions of the control after it has applied the
  validated class (first part); for collaborators that do not look at the class list or
  at \<^verbatim>\<open>aria-invalid\<close> these are the answers for the control as it was (second part).
\<close>

theorem valid_iff_no_facet_fails:
  "(fst (valid env s) \<longleftrightarrow>
      \<not> is_validation_candidate env (elem (validated env s)) \<or>
      (\<forall>(prop, func) \<in> set validity_state_checkers. \<not> fst (func env (validated env s)))) \<and>
   (presentation_blind env \<longrightarrow>
      (fst (valid env s) \<longleftrightarrow>
         \<not> is_validation_candidate env (elem s) \<or>
         (\<forall>(prop, func) \<in> set validity_state_checkers. \<not> fst (func env s))))"
proof -
  have a: "fst (valid env s) \<longleftrightarrow>
      \<not> is_validation_candidate env (elem (validated env s)) \<or>
      (\<forall>(prop, func) \<in> set validity_state_checkers. \<not> fst (func env (validated env s)))"
    by (auto simp: valid_fst first_invalid_any)
  have "fst (valid env s) \<longleftrightarrow>
         \<not> is_validation_candidate env (elem s) \<or>
         (\<forall>(prop, func) \<in> set validity_state_checkers. \<not> fst (func env s))"
    if b: "presentation_blind env"
  proof -
    note sc = validated_same_control[of s env]
    have "is_validation_candidate env (elem (validated env s)) =
          is_validation_candidate env (elem s)"
      using blind_fields(11)[OF b sc] by simp
    moreover have "fst (func env (validated env s)) = fst (func env s)"
      if "(name, func) \<in> set validity_state_checkers" for name func
      using blind_checker[OF that b sc validated_messages[symmetric]] by simp
    ultimately show ?thesis using a by auto
  qed
  with a show ?thesis by blast
qed

theorem valid_iff_no_facet_fails_witness:
  "presentation_blind sample_env \<and>
   fst (valid sample_env (control 1 ''abc'' [(''required'', [])])) \<and>
   \<not> fst (valid sample_env (control 1 [] [(''required'', [])]))"
proof -
  let ?A = "control 1 ''abc'' [(''required'', [])]"
  let ?B = "control 1 [] [(''required'', [])]"
  have a: "\<forall>(prop, func) \<in> set validity_state_checkers. \<not> fst (func sample_env ?A)"
    by (simp add: validity_state_checkers_def checker_defs sample_defs)
  have b: "is_validation_candidate sample_env (elem ?B)"
    by (simp add: sample_defs)
  have c: "\<not> (\<forall>(prop, func) \<in> set validity_state_checkers. \<not> fst (func sample_env ?B))"
    by (simp add: validity_state_checkers_def checker_defs sample_defs)
  from valid_iff_no_facet_fails[of sample_env ?A] valid_iff_no_facet_fails[of sample_env ?B]
    sample_env_blind a b c
  show ?thesis by blast
qed

subsection \<open>The facet customError\<close>

text \<open>
  C5. The facet \<^verbatim>\<open>customError\<close> is true if and only if some registered validator
  returns false, or none does and the store holds a non-empty message with the custom
  marker for the control. The validators are called in registration order up to and
  including the first one that returns false: the number of validators called is the
  length of the prefix before it, plus one if there is one. The checker leaves the state
  as it is.
\<close>

theorem custom_error_facet:
  "(fst (customError env s) \<longleftrightarrow>
      (\<exists>v \<in> set (Registry_get env (elem s)). v (elem s) = Some False) \<or>
      ((\<forall>v \<in> set (Registry_get env (elem s)). v (elem s) \<noteq> Some False) \<and>
       msg_text (message_store_get (elem s) s) \<noteq> [] \<and>
       is_custom (message_store_get (elem s) s))) \<and>
   snd (call_validators (Registry_get env (elem s)) (elem s)) =
     length (takeWhile (\<lambda>v. v (elem s) \<noteq> Some False) (Registry_get env (elem s))) +
     (if \<exists>v \<in> set (Registry_get env (elem s)). v (elem s) = Some False then 1 else 0) \<and>
   snd (customError env s) = s"
  using customError_fails[of env s]
    call_validators_count[of "Registry_get env (elem s)" "elem s"]
    customError_state[of env s]
  unfolding explicit_failure_def by auto

theorem custom_error_facet_witness:
  "fst (customError
          (sample_env\<lparr>Registry_get := (\<lambda>e. [\<lambda>e. None, \<lambda>e. Some False, \<lambda>e. Some True])\<rparr>)
          (control 1 ''abc'' [])) \<and>
   snd (call_validators [\<lambda>e. None, \<lambda>e. Some False, \<lambda>e. Some True]
          (elem (control 1 ''abc'' []))) = 2"
proof -
  let ?E = "sample_env\<lparr>Registry_get := (\<lambda>e. [\<lambda>e. None, \<lambda>e. Some False, \<lambda>e. Some True])\<rparr>"
  let ?S = "control 1 ''abc'' []"
  have r: "Registry_get ?E (elem ?S) = [\<lambda>e. None, \<lambda>e. Some False, \<lambda>e. Some True]"
    by (simp add: sample_env_def)
  from custom_error_facet[of ?E ?S] show ?thesis
    unfolding r by simp
qed

subsection \<open>Controls that are no validation candidates\<close>

text \<open>
  C6. When \<^verbatim>\<open>is_validation_candidate\<close> returns false for the control (as the getter asks
  it, or for the control as it was when the collaborators do not look at the presentation
  state), reading \<^verbatim>\<open>valid\<close> returns true whatever the constraint predicates say, and the
  read leaves no entry for the control in the message store.
\<close>

theorem candidate_exemption:
  assumes "\<not> is_validation_candidate env (elem (validated env s)) \<or>
           (presentation_blind env \<and> \<not> is_validation_candidate env (elem s))"
  shows "fst (valid env s) \<and>
         messages (snd (valid env s)) (ident (elem s)) = None \<and>
         message_store_get (elem s) (snd (valid env s)) = \<lparr>msg_text = [], is_custom = False\<rparr>"
proof -
  have n: "\<not> is_validation_candidate env (elem (validated env s))"
    using assms blind_fields(11)[OF _ validated_same_control[of s env]] by auto
  then have "fst (valid env s)" by (simp add: valid_fst)
  moreover from n have m: "messages (snd (valid env s)) (ident (elem s)) = None"
    by (simp add: valid_messages)
  moreover from m have "message_store_get (elem s) (snd (valid env s)) =
      \<lparr>msg_text = [], is_custom = False\<rparr>"
    by (simp add: message_store_get_def)
  ultimately show ?thesis by simp
qed

theorem candidate_exemption_witness:
  "\<not> is_validation_candidate sample_env
       (elem (validated sample_env
          ((control 1 [] [(''required'', []), (''disabled'', [])])
             \<lparr>messages := [1 \<mapsto> \<lparr>msg_text = ''old'', is_custom = True\<rparr>]\<rparr>))) \<and>
   \<not> test_required sample_env
       (elem ((control 1 [] [(''required'', []), (''disabled'', [])])
             \<lparr>messages := [1 \<mapsto> \<lparr>msg_text = ''old'', is_custom = True\<rparr>]\<rparr>)) \<and>
   fst (valid sample_env
          ((control 1 [] [(''required'', []), (''disabled'', [])])
             \<lparr>messages := [1 \<mapsto> \<lparr>msg_text = ''old'', is_custom = True\<rparr>]\<rparr>)) \<and>
   messages (snd (valid sample_env
          ((control 1 [] [(''required'', []), (''disabled'', [])])
             \<lparr>messages := [1 \<mapsto> \<lparr>msg_text = ''old'', is_custom = True\<rparr>]\<rparr>))) 1 = None"
proof -
  let ?S = "(control 1 [] [(''required'', []), (''disabled'', [])])
             \<lparr>messages := [1 \<mapsto> \<lparr>msg_text = ''old'', is_custom = True\<rparr>]\<rparr>"
  have c: "\<not> is_validation_candidate sample_env (elem (validated sample_env ?S))"
    by (simp add: validated_def sample_defs)
  have r: "\<not> test_required sample_env (elem ?S)"
    by (simp add: sample_defs)
  have i: "ident (elem ?S) = 1"
    by (simp add: control_def)
  from candidate_exemption[of sample_env ?S] c r i show ?thesis by simp
qed

subsection \<open>Reading valid twice\<close>

lemma state_eqI: "elem t = elem t' \<Longrightarrow> messages t = messages t' \<Longrightarrow> t = (t' :: state)"
  by (rule state.equality) simp_all

lemma validated_elem_cong:
  "elem t = elem t' \<Longrightarrow> elem (validated env t) = elem (validated env t')"
  by (simp add: validated_def classList_add_def)

lemma reread_blind:
  assumes "presentation_blind env"
  shows "fst (valid env (snd (valid env s))) = fst (valid env s) \<and>
         messages (snd (valid env (snd (valid env s)))) = messages (snd (valid env s))"
proof -
  let ?cs = validity_state_checkers
  let ?s1 = "validated env s"
  let ?u = "snd (valid env s)"
  let ?u1 = "validated env ?u"
  let ?r = "first_invalid env ?cs ?s1"
  have sc1: "same_control (elem ?s1) (elem ?u1)"
    using same_control_trans[OF same_control_sym[OF validated_same_control[of s env]]
        same_control_trans[OF valid_same_control[of s env] validated_same_control[of ?u env]]] .
  have id: "ident (elem ?u) = ident (elem s)"
    using same_control_fields(1)[OF valid_same_control[of s env]] by simp
  have cand: "is_validation_candidate env (elem ?u1) = is_validation_candidate env (elem ?s1)"
    using blind_fields(11)[OF assms sc1] by simp
  show ?thesis
  proof (cases "is_validation_candidate env (elem ?s1)")
    case False
    with cand id show ?thesis by (simp add: valid_fst valid_messages)
  next
    case True
    show ?thesis
    proof (cases "fst ?r")
      case T: True
      have e: "same_control (elem (snd ?r)) (elem ?u1)"
        using sc1 by (simp add: first_invalid_elem)
      have m: "messages (snd ?r) = messages ?u1"
        using True T by (simp add: validated_messages valid_messages)
      from blind_first_invalid[OF assms e m] first_invalid_again[OF T]
      have "fst (first_invalid env ?cs ?u1) = fst ?r"
        and "messages (snd (first_invalid env ?cs ?u1)) = messages (snd ?r)"
        by simp_all
      with True T cand show ?thesis by (simp add: valid_fst valid_messages)
    next
      case F: False
      let ?d = "message_store_delete (elem ?s1) ?s1"
      have e: "same_control (elem ?d) (elem ?u1)"
        using sc1 by (simp add: message_store_delete_elem)
      have m: "messages ?d = messages ?u1"
        using F by (simp add: validated_messages valid_messages dom_ops_messages validated_ident)
      from blind_first_invalid(1)[OF assms e m] first_invalid_after_delete[OF F]
      have "\<not> fst (first_invalid env ?cs ?u1)" by simp
      with F cand id show ?thesis by (simp add: valid_fst valid_messages)
    qed
  qed
qed

lemma reread_unchanged:
  assumes "elem (snd (valid env s)) = elem s"
  shows "fst (valid env (snd (valid env s))) = fst (valid env s) \<and>
         messages (snd (valid env (snd (valid env s)))) = messages (snd (valid env s))"
proof -
  let ?cs = validity_state_checkers
  let ?s1 = "validated env s"
  let ?u = "snd (valid env s)"
  let ?u1 = "validated env ?u"
  let ?r = "first_invalid env ?cs ?s1"
  have el: "elem ?u1 = elem ?s1"
    using validated_elem_cong[OF assms] .
  have id: "ident (elem ?u) = ident (elem s)"
    using assms by simp
  show ?thesis
  proof (cases "is_validation_candidate env (elem ?s1)")
    case False
    with el id show ?thesis by (simp add: valid_fst valid_messages)
  next
    case True
    show ?thesis
    proof (cases "fst ?r")
      case T: True
      have "messages ?u1 = messages (snd ?r)"
        using True T by (simp add: validated_messages valid_messages)
      moreover have "elem ?u1 = elem (snd ?r)"
        using el by (simp add: first_invalid_elem)
      ultimately have "?u1 = snd ?r" by (rule state_eqI[rotated])
      with first_invalid_again[OF T] have "first_invalid env ?cs ?u1 = ?r" by simp
      with True T el show ?thesis by (simp add: valid_fst valid_messages)
    next
      case F: False
      let ?d = "message_store_delete (elem ?s1) ?s1"
      have "messages ?u1 = messages ?d"
        using F by (simp add: validated_messages valid_messages dom_ops_messages validated_ident)
      moreover have "elem ?u1 = elem ?d"
        using el by (simp add: message_store_delete_elem)
      ultimately have "?u1 = ?d" by (rule state_eqI[rotated])
      with first_invalid_after_delete[OF F]
      have "\<not> fst (first_invalid env ?cs ?u1)" by simp
      with F el id show ?thesis by (simp add: valid_fst valid_messages)
    qed
  qed
qed

text \<open>
  C9, as amended. Reading \<^verbatim>\<open>valid\<close> a second time right after the first, with
  nothing changed in between, yields the same boolean and leaves the same message store,
  in particular the same message for the control, in each of two cases: the
  collaborators' answers do not depend on the presentation state the read itself writes
  (the class list and \<^verbatim>\<open>aria-invalid\<close>), or the first read left the control exactly as
  it was.
\<close>

theorem valid_idempotent:
  assumes "presentation_blind env \<or> elem (snd (valid env s)) = elem s"
  shows "fst (valid env (snd (valid env s))) = fst (valid env s) \<and>
         messages (snd (valid env (snd (valid env s)))) = messages (snd (valid env s)) \<and>
         message_store_get (elem s) (snd (valid env (snd (valid env s)))) =
           message_store_get (elem s) (snd (valid env s))"
proof -
  from assms reread_blind[of env s] reread_unchanged[of env s]
  have main: "fst (valid env (snd (valid env s))) = fst (valid env s) \<and>
         messages (snd (valid env (snd (valid env s)))) = messages (snd (valid env s))"
    by blast
  then have "message_store_get (elem s) (snd (valid env (snd (valid env s)))) =
           message_store_get (elem s) (snd (valid env s))"
    by (simp add: message_store_get_def)
  with main show ?thesis by simp
qed

theorem valid_idempotent_witness:
  "presentation_blind sample_env \<and>
   \<not> fst (valid sample_env (control 1 [] [(''required'', [])])) \<and>
   \<not> fst (valid sample_env (snd (valid sample_env (control 1 [] [(''required'', [])])))) \<and>
   message_store_get (elem (control 1 [] [(''required'', [])]))
     (snd (valid sample_env (snd (valid sample_env (control 1 [] [(''required'', [])]))))) =
   \<lparr>msg_text = ''Please fill out this field.'', is_custom = False\<rparr>"
proof -
  let ?S = "control 1 [] [(''required'', [])]"
  have a: "\<not> fst (valid sample_env ?S)"
    by (simp add: valid_def validity_state_checkers_def checker_defs sample_defs)
  have b: "message_store_get (elem ?S) (snd (valid sample_env ?S)) =
      \<lparr>msg_text = ''Please fill out this field.'', is_custom = False\<rparr>"
    by (simp add: valid_def validity_state_checkers_def checker_defs sample_defs)
  from valid_idempotent[of sample_env ?S] a b sample_env_blind
  show ?thesis by simp
qed

text \<open>
  C9 as stated fails: the first read writes \<^verbatim>\<open>aria-invalid="false"\<close>, so with a
  bad-input predicate that reads this attribute the first read of an untouched control
  returns true and leaves no message, and the second read right after it returns false
  and leaves the message of \<^verbatim>\<open>badInput\<close>.
\<close>

theorem reread_sees_aria_invalid:
  "fst (valid (sample_env\<lparr>test_bad_input := (\<lambda>e. attrs e ''aria-invalid'' \<noteq> Some ''false'')\<rparr>)
          (control 1 ''abc'' [])) = True \<and>
   fst (valid (sample_env\<lparr>test_bad_input := (\<lambda>e. attrs e ''aria-invalid'' \<noteq> Some ''false'')\<rparr>)
          (snd (valid (sample_env\<lparr>test_bad_input :=
                          (\<lambda>e. attrs e ''aria-invalid'' \<noteq> Some ''false'')\<rparr>)
                  (control 1 ''abc'' [])))) = False \<and>
   msg_text (message_store_get (elem (control 1 ''abc'' []))
      (snd (valid (sample_env\<lparr>test_bad_input :=
                      (\<lambda>e. attrs e ''aria-invalid'' \<noteq> Some ''false'')\<rparr>)
              (control 1 ''abc'' [])))) = [] \<and>
   msg_text (message_store_get (elem (control 1 ''abc'' []))
      (snd (valid (sample_env\<lparr>test_bad_input :=
                      (\<lambda>e. attrs e ''aria-invalid'' \<noteq> Some ''false'')\<rparr>)
              (snd (valid (sample_env\<lparr>test_bad_input :=
                              (\<lambda>e. attrs e ''aria-invalid'' \<noteq> Some ''false'')\<rparr>)
                      (control 1 ''abc'' [])))))) =
     ''Please match the requested type.''"
  by (simp add: valid_def validity_state_checkers_def checker_defs sample_defs)

subsection \<open>What a facet read changes\<close>

text \<open>
  C10. The facet getters exist for exactly the ten facet names. Reading one of them
  leaves the control as it is (its class list and its attributes, \<^verbatim>\<open>aria-invalid\<close>
  among them), leaves the message store entries of all other controls as they are, and
  changes nothing at all when the facet reports no failure.
\<close>

theorem facet_read_frame:
  "(facet_getter prop env s \<noteq> None \<longleftrightarrow>
      prop \<in> {''badInput'', ''customError'', ''patternMismatch'', ''rangeOverflow'',
              ''rangeUnderflow'', ''stepMismatch'', ''tooLong'', ''tooShort'',
              ''typeMismatch'', ''valueMissing''}) \<and>
   (\<forall>b s'. facet_getter prop env s = Some (b, s') \<longrightarrow>
      elem s' = elem s \<and>
      (\<forall>k. k \<noteq> ident (elem s) \<longrightarrow> messages s' k = messages s k) \<and>
      (\<not> b \<longrightarrow> s' = s))"
proof -
  have "facet_getter prop env s \<noteq> None \<longleftrightarrow>
      prop \<in> {''badInput'', ''customError'', ''patternMismatch'', ''rangeOverflow'',
              ''rangeUnderflow'', ''stepMismatch'', ''tooLong'', ''tooShort'',
              ''typeMismatch'', ''valueMissing''}"
    by (simp add: facet_getter_def validity_state_checkers_def split: option.splits)
  moreover have "elem s' = elem s \<and>
      (\<forall>k. k \<noteq> ident (elem s) \<longrightarrow> messages s' k = messages s k) \<and>
      (\<not> b \<longrightarrow> s' = s)" if g: "facet_getter prop env s = Some (b, s')" for b s'
  proof -
    from g obtain func where m: "map_of validity_state_checkers prop = Some func"
      and r: "func env s = (b, s')"
      by (auto simp: facet_getter_def split: option.splits)
    from m have "(prop, func) \<in> set validity_state_checkers" by (rule map_of_SomeD)
    from checker_frame[OF this, of env s] r show ?thesis by simp
  qed
  ultimately show ?thesis by blast
qed

theorem facet_read_frame_witness:
  "\<exists>s'. facet_getter ''valueMissing'' sample_env (control 1 [] [(''required'', [])]) =
          Some (True, s') \<and>
        elem s' = elem (control 1 [] [(''required'', [])]) \<and>
        messages s' 2 = messages (control 1 [] [(''required'', [])]) 2"
proof -
  let ?S = "control 1 [] [(''required'', [])]"
  have "facet_getter ''valueMissing'' sample_env ?S = Some (valueMissing sample_env ?S)"
    by (simp add: facet_getter_def validity_state_checkers_def)
  moreover have "fst (valueMissing sample_env ?S)"
    by (simp add: valueMissing_def sample_defs)
  ultimately obtain s' where
    g: "facet_getter ''valueMissing'' sample_env ?S = Some (True, s')"
    by (cases "valueMissing sample_env ?S") auto
  have k: "(2::nat) \<noteq> ident (elem ?S)" by (simp add: control_def)
  from facet_read_frame[of "''valueMissing''" sample_env ?S, THEN conjunct2, rule_format, OF g]
  have "elem s' = elem ?S" and "\<forall>k. k \<noteq> ident (elem ?S) \<longrightarrow> messages s' k = messages ?S k"
    by simp_all
  with g k show ?thesis by blast
qed

end
